theory Spec2Isabelle
  imports Complex_Main "HOL-Library.Word"
begin

section \<open>manipdraw: GPU pick pass, asynchronous readback and click log\<close>

text \<open>
  A shallow embedding of \<^verbatim>\<open>src/manipdraw.c\<close>: the per-frame draw callback
  \<^verbatim>\<open>draw_cb\<close>, the pick pass \<^verbatim>\<open>resolve_manip\<close>, the readback drain
  \<^verbatim>\<open>resolve_manip_complete\<close> and the highlight pass \<^verbatim>\<open>paint_manip\<close>.

  The file-scope variables of the plugin are the record \<open>globals\<close>, passed in and
  returned. What the host hands to one frame (pointer position, datarefs, the clock, the
  outcome of \<^verbatim>\<open>glMapBuffer\<close>) is the record \<open>host\<close>. Every call into OpenGL, into the
  obj8 renderer and into the shader helper is returned, in program order, as a list of
  \<open>call\<close> values; \<open>gl_run\<close> gives those calls their effect on the OpenGL context.
  \<^verbatim>\<open>ASSERT\<close> (in a build that keeps assertions) and \<^verbatim>\<open>VERIFY\<close> stop the process:
  they are the \<open>Inl\<close> results.
  C \<^verbatim>\<open>int\<close>, \<^verbatim>\<open>unsigned\<close> and \<^verbatim>\<open>GLuint\<close> are 32-bit words (an \<^verbatim>\<open>int\<close> is read
  with \<open>sint\<close> and compared with \<open><s\<close>), \<^verbatim>\<open>uint16_t\<close> and \<^verbatim>\<open>uint64_t\<close> are 16-bit and
  64-bit words. \<^verbatim>\<open>logMsg\<close> output is left out.
\<close>

subsection \<open>Data\<close>

text \<open>\<^verbatim>\<open>typedef struct _manip_click { uint16_t index; uint64_t start_t; } manip_click\<close>\<close>

record manip_click =
  index :: "16 word"
  start_t :: "64 word"

definition UINT16_MAX :: "16 word" where
  "UINT16_MAX = 0xFFFF"

text \<open>
  A 4\<times>4 float matrix. Its entries are never inspected by the code below, so a matrix
  is the name of the dataref it was read from, or a product formed by \<^verbatim>\<open>glm_mat4_mul\<close>.
\<close>

datatype mat4 = Dr_acf_matrix | Dr_proj_matrix_3d | Mat4_mul mat4 mat4

definition glm_mat4_mul :: "mat4 \<Rightarrow> mat4 \<Rightarrow> mat4" where
  "glm_mat4_mul m1 m2 = Mat4_mul m1 m2"

datatype shader_obj = Resolve_shader | Paint_shader

datatype uniform = U_PVM | U_COLOR

datatype gl_cap = GL_DEPTH_TEST | GL_BLEND

datatype gl_func =
  GL_NEVER | GL_LESS | GL_EQUAL | GL_LEQUAL | GL_GREATER | GL_NOTEQUAL | GL_GEQUAL | GL_ALWAYS

datatype render_mode = OBJ8_RENDER_MODE_MANIP_ONLY | OBJ8_RENDER_MODE_NONMANIP_ONLY_ONE

text \<open>
  The calls the four functions make, with their arguments. \<open>GlBindBuffer\<close>,
  \<open>GlMapBuffer\<close> and \<open>GlUnmapBuffer\<close> are always on \<^verbatim>\<open>GL_PIXEL_PACK_BUFFER\<close>,
  \<open>GlBindFramebufferEXT\<close> on \<^verbatim>\<open>GL_FRAMEBUFFER\<close>, \<open>GlReadPixels\<close> reads
  \<^verbatim>\<open>GL_RED\<close> as \<^verbatim>\<open>GL_UNSIGNED_SHORT\<close> to offset 0 of the bound pack buffer;
  \<open>GlClear c d\<close> has the colour bit \<open>c\<close> and the depth bit \<open>d\<close>.
\<close>

datatype call =
    GlBindBuffer "32 word"
  | GlMapBuffer
  | GlUnmapBuffer
  | GlBindFramebufferEXT "32 word"
  | GlViewport "32 word" "32 word" "32 word" "32 word"
  | GlEnable gl_cap
  | GlDisable gl_cap
  | GlDepthMask bool
  | GlDepthFunc gl_func
  | GlClearDepth rat
  | GlClearColor rat rat rat rat
  | GlClear bool bool
  | GlReadPixels "32 word" "32 word" "32 word" "32 word"
  | GlUniformMatrix4fv shader_obj uniform mat4
  | GlUniform4f shader_obj uniform rat rat rat rat
  | GlUseProgram "32 word"
  | Shader_obj_bind shader_obj
  | Shader_obj_reload_check shader_obj
  | Obj8_set_render_mode render_mode
  | Obj8_set_render_mode2 render_mode "32 word"
  | Obj8_draw_group shader_obj mat4
  | Obj8_draw_group_by_cmdidx "32 word" shader_obj mat4

text \<open>The failed check that stopped the process.\<close>

datatype error =
    ASSERT_cursor_pbo
  | ASSERT_cursor_fbo
  | ASSERT_obj
  | VERIFY_viewport

text \<open>
  The file-scope variables. \<open>obj\<close> is the pointer to the parsed cockpit object:
  \<open>None\<close> is \<^verbatim>\<open>NULL\<close>, \<open>Some a\<close> an object at address \<open>a\<close>.
\<close>

record globals =
  xpver :: "32 word"
  cursor_fbo :: "32 word"
  cursor_pbo :: "32 word"
  cursor_xfer :: bool
  manip_idx :: "16 word"
  prev_manip_idx :: "16 word"
  manip_clicks :: "manip_click list"
  last_draw_t :: "64 word"
  countup :: "32 word"
  todraw :: "32 word"
  indexToPaint :: "32 word"
  obj :: "nat option"

text \<open>The values of the static initialisers.\<close>

definition init_globals :: globals where
  "init_globals =
     \<lparr>xpver = 0, cursor_fbo = 0, cursor_pbo = 0, cursor_xfer = False,
      manip_idx = UINT16_MAX, prev_manip_idx = UINT16_MAX, manip_clicks = [],
      last_draw_t = 0, countup = 0, todraw = 0, indexToPaint = - 1, obj = None\<rparr>"

text \<open>
  What the host supplies during one call of \<^verbatim>\<open>draw_cb\<close>: the pointer position of
  \<^verbatim>\<open>XPLMGetMouseLocationGlobal\<close>, the contents of the datarefs, what
  \<^verbatim>\<open>glMapBuffer\<close> returns if it is called (\<open>None\<close> for \<^verbatim>\<open>NULL\<close>, \<open>Some d\<close> for a
  pointer to the 16-bit value \<open>d\<close>), and what \<^verbatim>\<open>microclock\<close> returns in
  \<^verbatim>\<open>resolve_manip_complete\<close> and in \<^verbatim>\<open>paint_manip\<close>.
\<close>

record host =
  mouse_x :: "32 word"
  mouse_y :: "32 word"
  dr_viewport :: "32 word list"
  dr_fbo :: "32 word"
  dr_modern_drv :: "32 word"
  dr_rev_float_z :: "32 word"
  map_data :: "16 word option"
  clock_resolve :: "64 word"
  clock_paint :: "64 word"

text \<open>
  \<^verbatim>\<open>dr_getvi(dr, buf, off, n)\<close> copies at most \<open>n\<close> values of the dataref from
  offset \<open>off\<close> and returns how many it copied: the list is the copied values.
\<close>

definition dr_getvi :: "32 word list \<Rightarrow> nat \<Rightarrow> nat \<Rightarrow> 32 word list" where
  "dr_getvi dr off n = take n (drop off dr)"

subsection \<open>The readback drain\<close>

definition resolve_manip_complete ::
  "host \<Rightarrow> globals \<Rightarrow> error + (globals \<times> call list)" where
  "resolve_manip_complete h g =
     (if \<not> cursor_xfer g then Inr (g, [])
      else if cursor_pbo g = 0 then Inl ASSERT_cursor_pbo
      else
        (case map_data h of
           None \<Rightarrow>
             Inr (g\<lparr>cursor_xfer := False\<rparr>,
                  [GlBindBuffer (cursor_pbo g), GlMapBuffer, GlBindBuffer 0])
         | Some d \<Rightarrow>
             (let g1 = g\<lparr>manip_idx := d\<rparr>;
                  g2 = (if manip_idx g1 \<noteq> UINT16_MAX \<and> manip_idx g1 \<noteq> prev_manip_idx g1
                        then g1\<lparr>prev_manip_idx := manip_idx g1,
                                manip_clicks := manip_clicks g1 @
                                  [\<lparr>index = manip_idx g1, start_t = clock_resolve h\<rparr>]\<rparr>
                        else g1)
              in Inr (g2\<lparr>cursor_xfer := False\<rparr>,
                      [GlBindBuffer (cursor_pbo g), GlMapBuffer, GlUnmapBuffer,
                       GlBindBuffer 0]))))"

subsection \<open>The pick pass\<close>

definition is_rev_float_z :: "host \<Rightarrow> globals \<Rightarrow> bool" where
  "is_rev_float_z h g =
     (12000 \<le>s xpver g \<or> dr_modern_drv h \<noteq> 0 \<or> dr_rev_float_z h \<noteq> 0)"

text \<open>
  The calls of \<^verbatim>\<open>resolve_manip\<close> after the drain, in four runs: binding the pick
  framebuffer up to the clear (lines 233 to 248), the draw of the manipulator geometry
  (250 to 255), the copy into the pixel buffer (258 to 260) and the restore (265 to 272).
\<close>

definition pick_setup_calls ::
  "host \<Rightarrow> globals \<Rightarrow> 32 word \<Rightarrow> 32 word \<Rightarrow> 32 word list \<Rightarrow> call list" where
  "pick_setup_calls h g mx my vp =
     [GlBindFramebufferEXT (cursor_fbo g),
      GlViewport (vp ! 0 - mx) (vp ! 1 - my) (vp ! 2) (vp ! 3),
      GlEnable GL_DEPTH_TEST,
      GlDepthMask True] @
     (if is_rev_float_z h g then [GlDepthFunc GL_GREATER, GlClearDepth 0] else []) @
     [GlClearColor 1 0 0 1,
      GlClear True True,
      GlClearColor 0 0 0 0]"

definition pick_draw_calls :: "mat4 \<Rightarrow> call list" where
  "pick_draw_calls pvm =
     [Shader_obj_bind Resolve_shader,
      GlUniformMatrix4fv Resolve_shader U_PVM pvm,
      Obj8_set_render_mode OBJ8_RENDER_MODE_MANIP_ONLY,
      Obj8_draw_group Resolve_shader pvm]"

definition pick_read_calls :: "globals \<Rightarrow> call list" where
  "pick_read_calls g =
     [GlBindBuffer (cursor_pbo g),
      GlReadPixels 0 0 1 1,
      GlBindBuffer 0]"

definition pick_restore_calls :: "host \<Rightarrow> globals \<Rightarrow> 32 word list \<Rightarrow> call list" where
  "pick_restore_calls h g vp =
     [GlDisable GL_DEPTH_TEST,
      GlDepthMask False] @
     (if is_rev_float_z h g then [GlDepthFunc GL_LESS, GlClearDepth 1] else []) @
     [GlBindFramebufferEXT (dr_fbo h),
      GlViewport (vp ! 0) (vp ! 1) (vp ! 2) (vp ! 3)]"

text \<open>
  \<^verbatim>\<open>resolve_manip(mouse_x, mouse_y, pvm)\<close>. \<^verbatim>\<open>pvm\<close> is an array, never
  \<^verbatim>\<open>NULL\<close>. The checks come in the order of the source: the drain (which may fail
  its own assertion), the viewport dataref, \<^verbatim>\<open>cursor_fbo\<close>, \<^verbatim>\<open>obj\<close>,
  \<^verbatim>\<open>cursor_pbo\<close>. The only variable written after the drain is \<^verbatim>\<open>cursor_xfer\<close>.
\<close>

definition resolve_manip ::
  "host \<Rightarrow> 32 word \<Rightarrow> 32 word \<Rightarrow> mat4 \<Rightarrow> globals \<Rightarrow> error + (globals \<times> call list)" where
  "resolve_manip h mx my pvm g =
     (case resolve_manip_complete h g of
        Inl e \<Rightarrow> Inl e
      | Inr (g1, c1) \<Rightarrow>
          (let vp = dr_getvi (dr_viewport h) 0 4 in
           if length vp \<noteq> 4 then Inl VERIFY_viewport
           else if cursor_fbo g1 = 0 then Inl ASSERT_cursor_fbo
           else if obj g1 = None then Inl ASSERT_obj
           else if cursor_pbo g1 = 0 then Inl ASSERT_cursor_pbo
           else Inr (g1\<lparr>cursor_xfer := True\<rparr>,
                     c1 @ pick_setup_calls h g1 mx my vp @ pick_draw_calls pvm @
                     pick_read_calls g1 @ pick_restore_calls h g1 vp)))"

subsection \<open>The highlight pass\<close>

text \<open>
  \<^verbatim>\<open>paint_manip(pvm)\<close>. \<^verbatim>\<open>alpha\<close> is the constant 0.5. The counter is bumped
  and \<^verbatim>\<open>todraw\<close> updated (unsigned arithmetic) before the shader is bound.
\<close>

definition paint_manip :: "host \<Rightarrow> mat4 \<Rightarrow> globals \<Rightarrow> error + (globals \<times> call list)" where
  "paint_manip h pvm g =
     (let now = clock_paint h;
          vp = dr_getvi (dr_viewport h) 0 4 in
      if length vp \<noteq> 4 then Inl VERIFY_viewport
      else
        (let g1 = g\<lparr>countup := countup g + 1\<rparr>;
             newtodraw = (countup g1 div 2) mod 200;
             g2 = (if newtodraw \<noteq> todraw g1 then g1\<lparr>todraw := newtodraw\<rparr> else g1) in
         if obj g2 = None then Inl ASSERT_obj
         else Inr (g2\<lparr>last_draw_t := now\<rparr>,
                   [Shader_obj_bind Paint_shader,
                    GlUniformMatrix4fv Paint_shader U_PVM pvm,
                    GlUniform4f Paint_shader U_COLOR 1 0 0 (1 / 2),
                    GlEnable GL_BLEND,
                    Obj8_set_render_mode2 OBJ8_RENDER_MODE_NONMANIP_ONLY_ONE (indexToPaint g2),
                    Obj8_draw_group_by_cmdidx (indexToPaint g2) Paint_shader pvm,
                    GlViewport (vp ! 0) (vp ! 1) (vp ! 2) (vp ! 3)])))"

subsection \<open>The frame callback\<close>

text \<open>
  The part of \<^verbatim>\<open>draw_cb\<close> after the bounds check (lines 409 to 426): reload check of
  both shaders, the product of the projection and aircraft matrices, the pick pass, the
  highlight pass, \<^verbatim>\<open>glUseProgram(0)\<close>.
\<close>

definition draw_passes :: "host \<Rightarrow> globals \<Rightarrow> error + (globals \<times> call list)" where
  "draw_passes h g =
     (let pvm = glm_mat4_mul Dr_proj_matrix_3d Dr_acf_matrix in
      case resolve_manip h (mouse_x h) (mouse_y h) pvm g of
        Inl e \<Rightarrow> Inl e
      | Inr (g1, c1) \<Rightarrow>
          (case paint_manip h pvm g1 of
             Inl e \<Rightarrow> Inl e
           | Inr (g2, c2) \<Rightarrow>
               Inr (g2, [Shader_obj_reload_check Resolve_shader,
                         Shader_obj_reload_check Paint_shader] @ c1 @ c2 @
                        [GlUseProgram 0])))"

text \<open>
  \<^verbatim>\<open>draw_cb\<close>: with the pointer off the viewport it returns at once, having called
  nothing and written nothing.
\<close>

definition draw_cb :: "host \<Rightarrow> globals \<Rightarrow> error + (globals \<times> call list)" where
  "draw_cb h g =
     (let vp = dr_getvi (dr_viewport h) 0 4 in
      if length vp \<noteq> 4 then Inl VERIFY_viewport
      else if mouse_x h <s vp ! 0 \<or> vp ! 0 + vp ! 2 <s mouse_x h \<or>
              mouse_y h <s vp ! 1 \<or> vp ! 1 + vp ! 3 <s mouse_y h
           then Inr (g, [])
           else draw_passes h g)"

text \<open>
  A run of frames: \<^verbatim>\<open>draw_cb\<close> once per element of the list, each on the variables
  the one before left, the calls collected in order. A failed check ends the run.
\<close>

fun run_frames :: "host list \<Rightarrow> globals \<Rightarrow> error + (globals \<times> call list)" where
  "run_frames [] g = Inr (g, [])"
| "run_frames (h # hs) g =
     (case draw_cb h g of
        Inl e \<Rightarrow> Inl e
      | Inr (g1, c1) \<Rightarrow>
          (case run_frames hs g1 of
             Inl e \<Rightarrow> Inl e
           | Inr (g2, c2) \<Rightarrow> Inr (g2, c1 @ c2)))"

subsection \<open>The OpenGL context\<close>

text \<open>
  The part of the OpenGL context that the calls above read or write: the framebuffer
  binding, the viewport, the depth state, the clear values, blending, the pixel-pack
  buffer binding; for each framebuffer the red channel of texel (0,0) of its colour
  attachment (the pick surface is one texel of format \<^verbatim>\<open>GL_R16\<close>), and for each
  buffer object the 16-bit value at offset 0 of its store.
\<close>

record gl_state =
  fb_binding :: "32 word"
  viewport :: "32 word \<times> 32 word \<times> 32 word \<times> 32 word"
  depth_test :: bool
  depth_mask :: bool
  depth_func :: gl_func
  clear_depth :: rat
  clear_color :: "rat \<times> rat \<times> rat \<times> rat"
  blend :: bool
  pack_binding :: "32 word"
  fb_red :: "32 word \<Rightarrow> 16 word"
  buf_data :: "32 word \<Rightarrow> 16 word"

text \<open>
  A colour component stored in a 16-bit normalised channel: clamped to the unit interval,
  scaled by \<open>2\<^sup>1\<^sup>6 - 1\<close> and rounded.
\<close>

definition unorm16 :: "rat \<Rightarrow> 16 word" where
  "unorm16 c = word_of_int \<lfloor>max 0 (min 1 c) * 65535 + 1 / 2\<rfloor>"

text \<open>
  The effect of one call. The scene is what the manipulator geometry covers: \<open>scene dx dy\<close>
  is the index that the draw of the manipulator-only geometry writes at the pixel \<open>dx\<close>
  to the right of and \<open>dy\<close> above the viewport origin (\<open>None\<close> where no manipulator is).
  The bound framebuffer has the single texel (0,0), which lies \<open>- x\<close>, \<open>- y\<close> from the
  origin \<open>(x, y)\<close> of the viewport, and nothing is drawn outside the viewport.
  \<^verbatim>\<open>glViewport\<close> with a negative width or height is an error and changes nothing. A
  clear writes the whole colour attachment (no scissor test, no colour mask). The
  highlight draw writes colour to the host's framebuffer, whose pixels are not part of
  the state; uniforms, programs and render modes are not part of it either.
\<close>

fun gl_call :: "(int \<Rightarrow> int \<Rightarrow> 16 word option) \<Rightarrow> call \<Rightarrow> gl_state \<Rightarrow> gl_state" where
  "gl_call scene (GlBindBuffer b) s = s\<lparr>pack_binding := b\<rparr>"
| "gl_call scene (GlBindFramebufferEXT f) s = s\<lparr>fb_binding := f\<rparr>"
| "gl_call scene (GlViewport x y w h) s =
     (if 0 \<le>s w \<and> 0 \<le>s h then s\<lparr>viewport := (x, y, w, h)\<rparr> else s)"
| "gl_call scene (GlEnable GL_DEPTH_TEST) s = s\<lparr>depth_test := True\<rparr>"
| "gl_call scene (GlEnable GL_BLEND) s = s\<lparr>blend := True\<rparr>"
| "gl_call scene (GlDisable GL_DEPTH_TEST) s = s\<lparr>depth_test := False\<rparr>"
| "gl_call scene (GlDisable GL_BLEND) s = s\<lparr>blend := False\<rparr>"
| "gl_call scene (GlDepthMask b) s = s\<lparr>depth_mask := b\<rparr>"
| "gl_call scene (GlDepthFunc f) s = s\<lparr>depth_func := f\<rparr>"
| "gl_call scene (GlClearDepth d) s = s\<lparr>clear_depth := d\<rparr>"
| "gl_call scene (GlClearColor r gr b a) s = s\<lparr>clear_color := (r, gr, b, a)\<rparr>"
| "gl_call scene (GlClear c d) s =
     (if c then s\<lparr>fb_red := (fb_red s)(fb_binding s := unorm16 (fst (clear_color s)))\<rparr>
      else s)"
| "gl_call scene (Obj8_draw_group sh pvm) s =
     (case viewport s of (x, y, w, h) \<Rightarrow>
        if 0 \<le> - sint x \<and> - sint x < sint w \<and> 0 \<le> - sint y \<and> - sint y < sint h
        then (case scene (- sint x) (- sint y) of
                None \<Rightarrow> s
              | Some i \<Rightarrow> s\<lparr>fb_red := (fb_red s)(fb_binding s := i)\<rparr>)
        else s)"
| "gl_call scene (GlReadPixels x y w h) s =
     (if pack_binding s \<noteq> 0
      then s\<lparr>buf_data := (buf_data s)(pack_binding s := fb_red s (fb_binding s))\<rparr>
      else s)"
| "gl_call scene c s = s"

definition gl_run :: "(int \<Rightarrow> int \<Rightarrow> 16 word option) \<Rightarrow> call list \<Rightarrow> gl_state \<Rightarrow> gl_state" where
  "gl_run scene cs s = foldl (\<lambda>s c. gl_call scene c s) s cs"

subsection \<open>Example inputs\<close>

text \<open>
  The variables after the plugin was enabled and an aircraft loaded (pick surface and
  pixel buffer created, cockpit object parsed), before the first frame; a frame with the
  pointer at (100,100) in a viewport (0,0,800,600) whose map attempt fails; and the same
  frame with a map attempt that reads the index \<open>d\<close>.
\<close>

definition ex_globals :: globals where
  "ex_globals = init_globals\<lparr>xpver := 11550, cursor_fbo := 1, cursor_pbo := 1,
     indexToPaint := 5, obj := Some 0\<rparr>"

definition ex_host :: host where
  "ex_host =
     \<lparr>mouse_x = 100, mouse_y = 100, dr_viewport = [0, 0, 800, 600], dr_fbo = 0,
      dr_modern_drv = 0, dr_rev_float_z = 0, map_data = None,
      clock_resolve = 1000, clock_paint = 1001\<rparr>"

definition ex_read :: "16 word \<Rightarrow> host" where
  "ex_read d = ex_host\<lparr>map_data := Some d\<rparr>"

text \<open>A scene with the manipulator 7 at the pixel (100,100) of the viewport, nothing else.\<close>

definition ex_scene :: "int \<Rightarrow> int \<Rightarrow> 16 word option" where
  "ex_scene dx dy = (if dx = 100 \<and> dy = 100 then Some 7 else None)"

text \<open>A context as the host may leave it: its own framebuffer 0 bound, depth test on.\<close>

definition ex_gl :: gl_state where
  "ex_gl =
     \<lparr>fb_binding = 0, viewport = (0, 0, 800, 600), depth_test = True, depth_mask = True,
      depth_func = GL_LEQUAL, clear_depth = 1, clear_color = (0, 0, 0, 0), blend = False,
      pack_binding = 0, fb_red = (\<lambda>f. 0), buf_data = (\<lambda>b. 0)\<rparr>"

text \<open>The calls and the variables of a result; no calls, no variables for a failed check.\<close>

definition calls_of :: "error + (globals \<times> call list) \<Rightarrow> call list" where
  "calls_of r = (case r of Inl e \<Rightarrow> [] | Inr (g, cs) \<Rightarrow> cs)"

definition globals_of :: "error + (globals \<times> call list) \<Rightarrow> globals option" where
  "globals_of r = (case r of Inl e \<Rightarrow> None | Inr (g, cs) \<Rightarrow> Some g)"

section \<open>Properties\<close>

subsection \<open>Auxiliary facts\<close>

lemmas ex_defs = ex_globals_def ex_host_def ex_read_def init_globals_def UINT16_MAX_def

lemmas frame_defs = draw_cb_def draw_passes_def resolve_manip_def resolve_manip_complete_def
  paint_manip_def dr_getvi_def is_rev_float_z_def glm_mat4_mul_def Let_def
  word_sless_alt word_sle_eq
  pick_setup_calls_def pick_draw_calls_def pick_read_calls_def pick_restore_calls_def

lemma globals_of_Inr: "globals_of (Inr (g, cs)) = Some g"
  by (simp add: globals_of_def)

lemma unorm16_one: "unorm16 1 = UINT16_MAX"
  unfolding unorm16_def UINT16_MAX_def by code_simp

lemmas gl_defs = gl_run_def ex_gl_def ex_scene_def unorm16_one calls_of_def

lemma sint_add_in_range:
  "- (2 ^ 31) \<le> sint a + sint b \<Longrightarrow> sint a + sint b < 2 ^ 31 \<Longrightarrow>
   sint (a + b :: 32 word) = sint a + sint b"
  by (simp add: sint_word_ariths signed_take_bit_int_eq_self)

lemma sint_sub_in_range:
  "- (2 ^ 31) \<le> sint a - sint b \<Longrightarrow> sint a - sint b < 2 ^ 31 \<Longrightarrow>
   sint (a - b :: 32 word) = sint a - sint b"
  by (simp add: sint_word_ariths signed_take_bit_int_eq_self)

lemma drain_idle: "\<not> cursor_xfer g \<Longrightarrow> resolve_manip_complete h g = Inr (g, [])"
  by (simp add: resolve_manip_complete_def)

lemma drain_flag: "resolve_manip_complete h g = Inr (g', cs) \<Longrightarrow> \<not> cursor_xfer g'"
  by (auto simp: resolve_manip_complete_def Let_def split: if_splits option.splits)

lemma drain_handles:
  "resolve_manip_complete h g = Inr (g', cs) \<Longrightarrow>
   cursor_fbo g' = cursor_fbo g \<and> cursor_pbo g' = cursor_pbo g \<and> xpver g' = xpver g \<and>
   obj g' = obj g"
  by (auto simp: resolve_manip_complete_def Let_def split: if_splits option.splits)

lemma drain_counters:
  "resolve_manip_complete h g = Inr (g', cs) \<Longrightarrow>
   countup g' = countup g \<and> indexToPaint g' = indexToPaint g"
  by (auto simp: resolve_manip_complete_def Let_def split: if_splits option.splits)

lemma drain_ready:
  "cursor_pbo g \<noteq> 0 \<Longrightarrow> \<exists>g1 c1. resolve_manip_complete h g = Inr (g1, c1)"
  by (cases "map_data h") (simp_all add: resolve_manip_complete_def Let_def)

lemma drain_fail_idx:
  "map_data h = None \<Longrightarrow> resolve_manip_complete h g = Inr (g', cs) \<Longrightarrow>
   manip_idx g' = manip_idx g"
  by (auto simp: resolve_manip_complete_def split: if_splits)

lemma drain_clicks:
  "resolve_manip_complete h g = Inr (g', cs) \<Longrightarrow>
   manip_clicks g' = manip_clicks g \<and> prev_manip_idx g' = prev_manip_idx g \<or>
   (\<exists>d. cursor_xfer g \<and> map_data h = Some d \<and> d \<noteq> UINT16_MAX \<and> d \<noteq> prev_manip_idx g \<and>
        prev_manip_idx g' = d \<and>
        manip_clicks g' = manip_clicks g @ [\<lparr>index = d, start_t = clock_resolve h\<rparr>])"
  by (auto simp: resolve_manip_complete_def Let_def split: if_splits option.splits)

lemma drain_read:
  "cursor_xfer g \<Longrightarrow> map_data h = Some d \<Longrightarrow> resolve_manip_complete h g = Inr (g', cs) \<Longrightarrow>
   manip_idx g' = d \<and>
   (if d \<noteq> UINT16_MAX \<and> d \<noteq> prev_manip_idx g
    then prev_manip_idx g' = d \<and>
         manip_clicks g' = manip_clicks g @ [\<lparr>index = d, start_t = clock_resolve h\<rparr>]
    else prev_manip_idx g' = prev_manip_idx g \<and> manip_clicks g' = manip_clicks g)"
  by (auto simp: resolve_manip_complete_def Let_def split: if_splits)

lemma resolve_manip_Inr:
  "resolve_manip h mx my pvm g = Inr (g', cs) \<Longrightarrow>
   \<exists>g1 c1. resolve_manip_complete h g = Inr (g1, c1) \<and> g' = g1\<lparr>cursor_xfer := True\<rparr> \<and>
     length (dr_getvi (dr_viewport h) 0 4) = 4 \<and> cursor_fbo g1 \<noteq> 0 \<and> cursor_pbo g1 \<noteq> 0 \<and>
     obj g1 \<noteq> None \<and>
     cs = c1 @ pick_setup_calls h g1 mx my (dr_getvi (dr_viewport h) 0 4) @
          pick_draw_calls pvm @ pick_read_calls g1 @
          pick_restore_calls h g1 (dr_getvi (dr_viewport h) 0 4)"
  by (auto simp: resolve_manip_def Let_def split: sum.splits if_splits)

lemma resolve_manip_ready:
  assumes "length (dr_getvi (dr_viewport h) 0 4) = 4" and "cursor_fbo g \<noteq> 0"
    and "cursor_pbo g \<noteq> 0" and "obj g \<noteq> None"
  shows "\<exists>g' cs. resolve_manip h mx my pvm g = Inr (g', cs) \<and> cursor_xfer g' \<and>
     obj g' = obj g \<and> countup g' = countup g \<and> indexToPaint g' = indexToPaint g \<and>
     GlReadPixels 0 0 1 1 \<in> set cs"
proof -
  from drain_ready [OF assms(3)] obtain g1 c1 where
    d: "resolve_manip_complete h g = Inr (g1, c1)" by blast
  from drain_handles [OF d] drain_counters [OF d] assms d show ?thesis
    by (simp add: resolve_manip_def Let_def pick_read_calls_def)
qed

lemma pick_calls_split:
  assumes "resolve_manip h mx my pvm g = Inr (g', cs)"
    and "resolve_manip_complete h g = Inr (g1, c1)"
  shows "g' = g1\<lparr>cursor_xfer := True\<rparr> \<and> cursor_fbo g1 = cursor_fbo g \<and>
         cursor_pbo g1 = cursor_pbo g \<and> cursor_pbo g \<noteq> 0 \<and>
         is_rev_float_z h g1 = is_rev_float_z h g \<and>
         cs = c1 @ pick_setup_calls h g1 mx my (dr_getvi (dr_viewport h) 0 4) @
              pick_draw_calls pvm @ pick_read_calls g1 @
              pick_restore_calls h g1 (dr_getvi (dr_viewport h) 0 4)"
  using resolve_manip_Inr [OF assms(1)] drain_handles [OF assms(2)] assms(2)
  by (auto simp: is_rev_float_z_def)

lemma paint_manip_Inr:
  "paint_manip h pvm g = Inr (g', cs) \<Longrightarrow>
   manip_clicks g' = manip_clicks g \<and> prev_manip_idx g' = prev_manip_idx g \<and>
   manip_idx g' = manip_idx g \<and> cursor_xfer g' = cursor_xfer g"
  by (auto simp: paint_manip_def Let_def split: if_splits)

lemma paint_manip_ready:
  "length (dr_getvi (dr_viewport h) 0 4) = 4 \<Longrightarrow> obj g \<noteq> None \<Longrightarrow>
   \<exists>g' cs. paint_manip h pvm g = Inr (g', cs) \<and> cursor_xfer g' = cursor_xfer g \<and>
     countup g' = countup g + 1 \<and>
     Obj8_draw_group_by_cmdidx (indexToPaint g) Paint_shader pvm \<in> set cs"
  by (simp add: paint_manip_def Let_def)

lemma draw_passes_Inr:
  "draw_passes h g = Inr (g', cs) \<Longrightarrow>
   \<exists>g1 c1. resolve_manip_complete h g = Inr (g1, c1) \<and>
     manip_clicks g' = manip_clicks g1 \<and> prev_manip_idx g' = prev_manip_idx g1 \<and>
     manip_idx g' = manip_idx g1 \<and> cursor_xfer g'"
  by (fastforce simp: draw_passes_def Let_def split: sum.splits dest!: resolve_manip_Inr paint_manip_Inr)

lemma draw_passes_ready:
  assumes "length (dr_getvi (dr_viewport h) 0 4) = 4" and "cursor_fbo g \<noteq> 0"
    and "cursor_pbo g \<noteq> 0" and "obj g \<noteq> None"
  shows "\<exists>g' cs. draw_passes h g = Inr (g', cs) \<and> cursor_xfer g' \<and>
     countup g' = countup g + 1 \<and> GlReadPixels 0 0 1 1 \<in> set cs \<and>
     Obj8_draw_group_by_cmdidx (indexToPaint g) Paint_shader
       (glm_mat4_mul Dr_proj_matrix_3d Dr_acf_matrix) \<in> set cs"
proof -
  let ?pvm = "glm_mat4_mul Dr_proj_matrix_3d Dr_acf_matrix"
  from resolve_manip_ready [OF assms, of "mouse_x h" "mouse_y h" ?pvm] obtain g1 c1 where
    r: "resolve_manip h (mouse_x h) (mouse_y h) ?pvm g = Inr (g1, c1)" "cursor_xfer g1"
       "obj g1 = obj g" "countup g1 = countup g" "indexToPaint g1 = indexToPaint g"
       "GlReadPixels 0 0 1 1 \<in> set c1"
    by blast
  from r(3) assms(4) have "obj g1 \<noteq> None" by simp
  from paint_manip_ready [OF assms(1) this, of ?pvm] obtain g2 c2 where
    p: "paint_manip h ?pvm g1 = Inr (g2, c2)" "cursor_xfer g2 = cursor_xfer g1"
       "countup g2 = countup g1 + 1"
       "Obj8_draw_group_by_cmdidx (indexToPaint g1) Paint_shader ?pvm \<in> set c2"
    by blast
  from r p show ?thesis by (simp add: draw_passes_def Let_def)
qed

lemma draw_cb_Inr:
  "draw_cb h g = Inr (g', cs) \<Longrightarrow>
   g' = g \<and> cs = [] \<or> draw_passes h g = Inr (g', cs)"
  by (auto simp: draw_cb_def Let_def split: if_splits)

lemma draw_cb_bounds:
  assumes "dr_getvi (dr_viewport h) 0 4 = [x, y, w, ht]"
    and "- (2 ^ 31) \<le> sint x + sint w" and "sint x + sint w < 2 ^ 31"
    and "- (2 ^ 31) \<le> sint y + sint ht" and "sint y + sint ht < 2 ^ 31"
  shows "draw_cb h g =
           (if sint (mouse_x h) < sint x \<or> sint x + sint w < sint (mouse_x h) \<or>
               sint (mouse_y h) < sint y \<or> sint y + sint ht < sint (mouse_y h)
            then Inr (g, []) else draw_passes h g)"
  using assms(1) sint_add_in_range [OF assms(2,3)] sint_add_in_range [OF assms(4,5)]
  by (simp add: draw_cb_def word_sless_alt)

lemma drain_log_inv:
  assumes "resolve_manip_complete h g = Inr (g', cs)"
    and "distinct_adj (map index (manip_clicks g))"
    and "manip_clicks g \<noteq> [] \<longrightarrow> index (last (manip_clicks g)) = prev_manip_idx g"
  shows "distinct_adj (map index (manip_clicks g')) \<and>
         (manip_clicks g' \<noteq> [] \<longrightarrow> index (last (manip_clicks g')) = prev_manip_idx g')"
  using drain_clicks [OF assms(1)]
proof
  assume "manip_clicks g' = manip_clicks g \<and> prev_manip_idx g' = prev_manip_idx g"
  with assms(2,3) show ?thesis by simp
next
  assume "\<exists>d. cursor_xfer g \<and> map_data h = Some d \<and> d \<noteq> UINT16_MAX \<and> d \<noteq> prev_manip_idx g \<and>
        prev_manip_idx g' = d \<and>
        manip_clicks g' = manip_clicks g @ [\<lparr>index = d, start_t = clock_resolve h\<rparr>]"
  then obtain d where d: "d \<noteq> prev_manip_idx g" "prev_manip_idx g' = d"
    "manip_clicks g' = manip_clicks g @ [\<lparr>index = d, start_t = clock_resolve h\<rparr>]"
    by blast
  have "distinct_adj (map index (manip_clicks g) @ [d])"
    using assms(2,3) d(1) by (auto simp: distinct_adj_append_iff last_map)
  with d show ?thesis by simp
qed

lemma draw_cb_log_inv:
  assumes "draw_cb h g = Inr (g', cs)"
    and "distinct_adj (map index (manip_clicks g))"
    and "manip_clicks g \<noteq> [] \<longrightarrow> index (last (manip_clicks g)) = prev_manip_idx g"
  shows "distinct_adj (map index (manip_clicks g')) \<and>
         (manip_clicks g' \<noteq> [] \<longrightarrow> index (last (manip_clicks g')) = prev_manip_idx g')"
  using draw_cb_Inr [OF assms(1)]
proof
  assume "g' = g \<and> cs = []"
  with assms(2,3) show ?thesis by simp
next
  assume "draw_passes h g = Inr (g', cs)"
  from draw_passes_Inr [OF this] obtain g1 c1 where
    d: "resolve_manip_complete h g = Inr (g1, c1)" and
    e: "manip_clicks g' = manip_clicks g1" "prev_manip_idx g' = prev_manip_idx g1"
    by blast
  from drain_log_inv [OF d assms(2,3)] e show ?thesis by simp
qed

lemma run_frames_log_inv:
  "run_frames hs g = Inr (g', cs) \<Longrightarrow>
   distinct_adj (map index (manip_clicks g)) \<Longrightarrow>
   (manip_clicks g \<noteq> [] \<longrightarrow> index (last (manip_clicks g)) = prev_manip_idx g) \<Longrightarrow>
   distinct_adj (map index (manip_clicks g')) \<and>
   (manip_clicks g' \<noteq> [] \<longrightarrow> index (last (manip_clicks g')) = prev_manip_idx g')"
proof (induction hs arbitrary: g cs)
  case Nil
  then show ?case by simp
next
  case (Cons h hs)
  from Cons.prems(1) obtain g1 c1 c2 where
    f: "draw_cb h g = Inr (g1, c1)" and r: "run_frames hs g1 = Inr (g', c2)"
    by (auto split: sum.splits)
  from draw_cb_log_inv [OF f Cons.prems(2,3)] Cons.IH [OF r] show ?case by blast
qed

lemma gl_run_Nil: "gl_run scene [] s = s"
  by (simp add: gl_run_def)

lemma gl_run_Cons: "gl_run scene (c # cs) s = gl_run scene cs (gl_call scene c s)"
  by (simp add: gl_run_def)

lemma gl_run_append: "gl_run scene (cs @ ds) s = gl_run scene ds (gl_run scene cs s)"
  by (simp add: gl_run_def)

lemma gl_run_drain:
  "resolve_manip_complete h g = Inr (g1, c1) \<Longrightarrow>
   gl_run scene c1 s = s \<or> gl_run scene c1 s = s\<lparr>pack_binding := 0\<rparr>"
  by (auto simp: resolve_manip_complete_def Let_def gl_run_Nil gl_run_Cons
      split: if_splits option.splits)

lemma gl_run_setup:
  "gl_run scene (pick_setup_calls h g mx my vp) s =
     s\<lparr>fb_binding := cursor_fbo g,
       viewport := (if 0 \<le> sint (vp ! 2) \<and> 0 \<le> sint (vp ! 3)
                    then (vp ! 0 - mx, vp ! 1 - my, vp ! 2, vp ! 3) else viewport s),
       depth_test := True, depth_mask := True,
       depth_func := (if is_rev_float_z h g then GL_GREATER else depth_func s),
       clear_depth := (if is_rev_float_z h g then 0 else clear_depth s),
       clear_color := (0, 0, 0, 0),
       fb_red := (fb_red s)(cursor_fbo g := UINT16_MAX)\<rparr>"
  by (simp add: pick_setup_calls_def gl_run_Nil gl_run_Cons unorm16_one word_sle_eq)

lemma gl_run_draw:
  "gl_run scene (pick_draw_calls pvm) s = gl_call scene (Obj8_draw_group Resolve_shader pvm) s"
  by (simp add: pick_draw_calls_def gl_run_Nil gl_run_Cons)

lemma gl_draw_uncovered:
  "viewport s = (x, y, w, ht) \<Longrightarrow> scene (- sint x) (- sint y) = None \<Longrightarrow>
   gl_call scene (Obj8_draw_group sh pvm) s = s"
  by simp

lemma gl_run_read:
  "cursor_pbo g \<noteq> 0 \<Longrightarrow>
   gl_run scene (pick_read_calls g) s =
     s\<lparr>pack_binding := 0,
       buf_data := (buf_data s)(cursor_pbo g := fb_red s (fb_binding s))\<rparr>"
  by (simp add: pick_read_calls_def gl_run_Nil gl_run_Cons)

lemma gl_run_restore:
  "gl_run scene (pick_restore_calls h g vp) s =
     s\<lparr>depth_test := False, depth_mask := False,
       depth_func := (if is_rev_float_z h g then GL_LESS else depth_func s),
       clear_depth := (if is_rev_float_z h g then 1 else clear_depth s),
       fb_binding := dr_fbo h,
       viewport := (if 0 \<le> sint (vp ! 2) \<and> 0 \<le> sint (vp ! 3)
                    then (vp ! 0, vp ! 1, vp ! 2, vp ! 3) else viewport s)\<rparr>"
  by (simp add: pick_restore_calls_def gl_run_Nil gl_run_Cons word_sle_eq)

subsection \<open>The readback drain (C1, C9)\<close>

text \<open>
  Claim C1, as the code has it. A drain that finds a transfer pending and whose map
  attempt fails clears the pending flag all the same (the assignment stands after the
  \<^verbatim>\<open>if (data != NULL)\<close> block): it calls bind, map, unbind, leaves every other variable as
  it was, and ends in the idle state. That transfer is not tried again: a drain of the
  state it leaves, whatever the host then offers, does nothing.
\<close>

theorem drain_failed_map_clears_pending:
  assumes "cursor_xfer g" and "map_data h = None" and "cursor_pbo g \<noteq> 0"
  shows "resolve_manip_complete h g =
           Inr (g\<lparr>cursor_xfer := False\<rparr>,
                [GlBindBuffer (cursor_pbo g), GlMapBuffer, GlBindBuffer 0]) \<and>
         resolve_manip_complete h' (g\<lparr>cursor_xfer := False\<rparr>) =
           Inr (g\<lparr>cursor_xfer := False\<rparr>, [])"
  using assms by (simp add: resolve_manip_complete_def)

theorem drain_failed_map_clears_pending_witness:
  "cursor_xfer (ex_globals\<lparr>cursor_xfer := True\<rparr>) \<and> map_data ex_host = None \<and>
   cursor_pbo (ex_globals\<lparr>cursor_xfer := True\<rparr>) \<noteq> 0 \<and>
   resolve_manip_complete ex_host (ex_globals\<lparr>cursor_xfer := True\<rparr>) =
     Inr (ex_globals, [GlBindBuffer 1, GlMapBuffer, GlBindBuffer 0]) \<and>
   resolve_manip_complete (ex_read 3) ex_globals = Inr (ex_globals, [])"
proof -
  have a: "cursor_xfer (ex_globals\<lparr>cursor_xfer := True\<rparr>)" by simp
  have b: "map_data ex_host = None" by (simp add: ex_host_def)
  have c: "cursor_pbo (ex_globals\<lparr>cursor_xfer := True\<rparr>) \<noteq> 0"
    by (simp add: ex_globals_def init_globals_def)
  have d: "ex_globals\<lparr>cursor_xfer := True, cursor_xfer := False\<rparr> = ex_globals"
    by (simp add: ex_globals_def init_globals_def)
  show ?thesis
    using drain_failed_map_clears_pending [OF a b c, of "ex_read 3"] a b c
    by (simp add: d) (simp add: ex_globals_def init_globals_def)
qed

text \<open>
  Claim C1 as stated fails: with a transfer pending and a map attempt that returns
  \<^verbatim>\<open>NULL\<close>, the drain leaves \<^verbatim>\<open>cursor_xfer\<close> false.
\<close>

theorem drain_failed_map_counterexample:
  "cursor_xfer (ex_globals\<lparr>cursor_xfer := True\<rparr>) \<and> map_data ex_host = None \<and>
   resolve_manip_complete ex_host (ex_globals\<lparr>cursor_xfer := True\<rparr>) =
     Inr (ex_globals, [GlBindBuffer 1, GlMapBuffer, GlBindBuffer 0]) \<and>
   \<not> cursor_xfer ex_globals"
  by (simp add: resolve_manip_complete_def ex_globals_def ex_host_def init_globals_def)

text \<open>
  Claim C9. A drain whose map attempt fails leaves \<^verbatim>\<open>manip_idx\<close> as it was; and over
  any number of frames in which every map attempt fails, \<^verbatim>\<open>manip_idx\<close> at the end is
  what it was at the start.
\<close>

theorem failed_map_keeps_manip_idx:
  "(map_data h = None \<longrightarrow> resolve_manip_complete h g = Inr (g1, c1) \<longrightarrow>
      manip_idx g1 = manip_idx g) \<and>
   ((\<forall>h \<in> set hs. map_data h = None) \<longrightarrow> run_frames hs g = Inr (g', cs) \<longrightarrow>
      manip_idx g' = manip_idx g)"
proof (intro conjI impI)
  assume "map_data h = None" and "resolve_manip_complete h g = Inr (g1, c1)"
  then show "manip_idx g1 = manip_idx g" by (rule drain_fail_idx)
next
  assume "\<forall>h \<in> set hs. map_data h = None" and "run_frames hs g = Inr (g', cs)"
  then show "manip_idx g' = manip_idx g"
  proof (induction hs arbitrary: g cs)
    case Nil
    then show ?case by simp
  next
    case (Cons h hs)
    from Cons.prems(2) obtain g1 c1 c2 where
      f: "draw_cb h g = Inr (g1, c1)" and r: "run_frames hs g1 = Inr (g', c2)"
      by (auto split: sum.splits)
    from Cons.prems(1) have n: "map_data h = None" and ns: "\<forall>h \<in> set hs. map_data h = None"
      by simp_all
    have "manip_idx g1 = manip_idx g"
      using draw_cb_Inr [OF f]
    proof
      assume "g1 = g \<and> c1 = []"
      then show ?thesis by simp
    next
      assume "draw_passes h g = Inr (g1, c1)"
      from draw_passes_Inr [OF this] n show ?thesis
        by (auto dest: drain_fail_idx)
    qed
    with Cons.IH [OF ns r] show ?case by simp
  qed
qed

theorem failed_map_keeps_manip_idx_witness:
  "map_data ex_host = None \<and>
   resolve_manip_complete ex_host (ex_globals\<lparr>manip_idx := 3, cursor_xfer := True\<rparr>) =
     Inr (ex_globals\<lparr>manip_idx := 3\<rparr>, [GlBindBuffer 1, GlMapBuffer, GlBindBuffer 0]) \<and>
   manip_idx (ex_globals\<lparr>manip_idx := 3\<rparr>) =
     manip_idx (ex_globals\<lparr>manip_idx := 3, cursor_xfer := True\<rparr>) \<and>
   globals_of (run_frames [ex_host, ex_host, ex_host]
     (ex_globals\<lparr>manip_idx := 3, cursor_xfer := True\<rparr>)) =
     Some (ex_globals\<lparr>manip_idx := 3, cursor_xfer := True, last_draw_t := 1001,
             countup := 3, todraw := 1\<rparr>) \<and>
   manip_idx (ex_globals\<lparr>manip_idx := 3, cursor_xfer := True, last_draw_t := 1001,
             countup := 3, todraw := 1\<rparr>) =
     manip_idx (ex_globals\<lparr>manip_idx := 3, cursor_xfer := True\<rparr>)"
proof -
  let ?g = "ex_globals\<lparr>manip_idx := 3, cursor_xfer := True\<rparr>"
  let ?g' = "ex_globals\<lparr>manip_idx := 3, cursor_xfer := True, last_draw_t := 1001,
             countup := 3, todraw := 1\<rparr>"
  let ?hs = "[ex_host, ex_host, ex_host]"
  have a: "map_data ex_host = None" by (simp add: ex_defs)
  have b: "resolve_manip_complete ex_host ?g =
     Inr (ex_globals\<lparr>manip_idx := 3\<rparr>, [GlBindBuffer 1, GlMapBuffer, GlBindBuffer 0])"
    by (simp add: ex_defs frame_defs)
  have c: "\<forall>h \<in> set ?hs. map_data h = None" by (simp add: ex_defs)
  have d: "run_frames ?hs ?g = Inr (?g', calls_of (run_frames ?hs ?g))"
    by (simp add: ex_defs frame_defs calls_of_def)
  have e: "globals_of (run_frames ?hs ?g) = Some ?g'"
    by (subst d) (rule globals_of_Inr)
  from failed_map_keeps_manip_idx [of ex_host ?g "ex_globals\<lparr>manip_idx := 3\<rparr>"
      "[GlBindBuffer 1, GlMapBuffer, GlBindBuffer 0]" ?hs ?g' "calls_of (run_frames ?hs ?g)"]
    a b c d
  have "manip_idx (ex_globals\<lparr>manip_idx := 3\<rparr>) = manip_idx ?g \<and> manip_idx ?g' = manip_idx ?g"
    by blast
  with a b e show ?thesis by blast
qed

subsection \<open>One transfer at a time (C2)\<close>

text \<open>
  Claim C2. A pick pass that runs to its end first drains; in the variables the drain
  leaves no transfer is pending; they are the variables in which the pass then issues its
  calls, the copy by \<^verbatim>\<open>glReadPixels\<close> among them, and the only change the pass makes to
  them is to set the pending flag. So the flag is clear at the moment it is set.
\<close>

theorem pick_pass_issues_on_idle:
  assumes "resolve_manip h mx my pvm g = Inr (g', cs)"
    and "resolve_manip_complete h g = Inr (g1, c1)"
  shows "\<not> cursor_xfer g1 \<and> g' = g1\<lparr>cursor_xfer := True\<rparr> \<and>
         cs = c1 @ pick_setup_calls h g1 mx my (dr_getvi (dr_viewport h) 0 4) @
              pick_draw_calls pvm @ pick_read_calls g1 @
              pick_restore_calls h g1 (dr_getvi (dr_viewport h) 0 4)"
  using resolve_manip_Inr [OF assms(1)] drain_flag [OF assms(2)] assms(2) by auto

theorem pick_pass_issues_on_idle_witness:
  "resolve_manip (ex_read 3) 100 100 Dr_acf_matrix (ex_globals\<lparr>cursor_xfer := True\<rparr>) =
     Inr (ex_globals\<lparr>manip_idx := 3, prev_manip_idx := 3,
            manip_clicks := [\<lparr>index = 3, start_t = 1000\<rparr>], cursor_xfer := True\<rparr>,
          calls_of (resolve_manip (ex_read 3) 100 100 Dr_acf_matrix
            (ex_globals\<lparr>cursor_xfer := True\<rparr>))) \<and>
   resolve_manip_complete (ex_read 3) (ex_globals\<lparr>cursor_xfer := True\<rparr>) =
     Inr (ex_globals\<lparr>manip_idx := 3, prev_manip_idx := 3,
            manip_clicks := [\<lparr>index = 3, start_t = 1000\<rparr>]\<rparr>,
          [GlBindBuffer 1, GlMapBuffer, GlUnmapBuffer, GlBindBuffer 0]) \<and>
   \<not> cursor_xfer (ex_globals\<lparr>manip_idx := 3, prev_manip_idx := 3,
            manip_clicks := [\<lparr>index = 3, start_t = 1000\<rparr>]\<rparr>)"
proof -
  have a: "resolve_manip_complete (ex_read 3) (ex_globals\<lparr>cursor_xfer := True\<rparr>) =
     Inr (ex_globals\<lparr>manip_idx := 3, prev_manip_idx := 3,
            manip_clicks := [\<lparr>index = 3, start_t = 1000\<rparr>]\<rparr>,
          [GlBindBuffer 1, GlMapBuffer, GlUnmapBuffer, GlBindBuffer 0])"
    by (simp add: ex_defs frame_defs)
  have b: "resolve_manip (ex_read 3) 100 100 Dr_acf_matrix (ex_globals\<lparr>cursor_xfer := True\<rparr>) =
     Inr (ex_globals\<lparr>manip_idx := 3, prev_manip_idx := 3,
            manip_clicks := [\<lparr>index = 3, start_t = 1000\<rparr>], cursor_xfer := True\<rparr>,
          calls_of (resolve_manip (ex_read 3) 100 100 Dr_acf_matrix
            (ex_globals\<lparr>cursor_xfer := True\<rparr>)))"
    by (simp add: ex_defs frame_defs calls_of_def)
  from pick_pass_issues_on_idle [OF b a] a b show ?thesis by simp
qed

subsection \<open>The click log (C3, C4)\<close>

text \<open>
  Claim C3. A drain either leaves the click log as it was or appends one entry, and then
  the map attempt read an index \<open>d\<close> that is not the sentinel and differs from
  \<^verbatim>\<open>prev_manip_idx\<close>, and the entry is \<open>d\<close> with the time of the drain. Starting with
  the empty log of the program's start, after any run of frames no two neighbouring
  entries of the log have the same index.
\<close>

theorem click_log_dedup:
  "(resolve_manip_complete h g = Inr (g1, c1) \<longrightarrow>
      manip_clicks g1 = manip_clicks g \<or>
      (\<exists>d. map_data h = Some d \<and> d \<noteq> UINT16_MAX \<and> d \<noteq> prev_manip_idx g \<and>
           manip_clicks g1 = manip_clicks g @ [\<lparr>index = d, start_t = clock_resolve h\<rparr>])) \<and>
   (manip_clicks g = [] \<longrightarrow> run_frames hs g = Inr (g', cs) \<longrightarrow>
      distinct_adj (map index (manip_clicks g')))"
proof (intro conjI impI)
  assume "resolve_manip_complete h g = Inr (g1, c1)"
  from drain_clicks [OF this]
  show "manip_clicks g1 = manip_clicks g \<or>
      (\<exists>d. map_data h = Some d \<and> d \<noteq> UINT16_MAX \<and> d \<noteq> prev_manip_idx g \<and>
           manip_clicks g1 = manip_clicks g @ [\<lparr>index = d, start_t = clock_resolve h\<rparr>])"
    by blast
next
  assume "manip_clicks g = []" and "run_frames hs g = Inr (g', cs)"
  with run_frames_log_inv [of hs g g' cs] show "distinct_adj (map index (manip_clicks g'))"
    by simp
qed

theorem click_log_dedup_witness:
  "resolve_manip_complete (ex_read 3) (ex_globals\<lparr>cursor_xfer := True\<rparr>) =
     Inr (ex_globals\<lparr>manip_idx := 3, prev_manip_idx := 3,
            manip_clicks := [\<lparr>index = 3, start_t = 1000\<rparr>]\<rparr>,
          [GlBindBuffer 1, GlMapBuffer, GlUnmapBuffer, GlBindBuffer 0]) \<and>
   manip_clicks (ex_globals\<lparr>cursor_xfer := True\<rparr>) = [] \<and>
   globals_of (run_frames [ex_read 3, ex_read 3, ex_read 7]
     (ex_globals\<lparr>cursor_xfer := True\<rparr>)) =
     Some (ex_globals\<lparr>manip_idx := 7, prev_manip_idx := 7,
            manip_clicks := [\<lparr>index = 3, start_t = 1000\<rparr>, \<lparr>index = 7, start_t = 1000\<rparr>],
            cursor_xfer := True, last_draw_t := 1001, countup := 3, todraw := 1\<rparr>) \<and>
   distinct_adj (map index (manip_clicks (ex_globals\<lparr>manip_idx := 7, prev_manip_idx := 7,
            manip_clicks := [\<lparr>index = 3, start_t = 1000\<rparr>, \<lparr>index = 7, start_t = 1000\<rparr>],
            cursor_xfer := True, last_draw_t := 1001, countup := 3, todraw := 1\<rparr>)))"
proof -
  let ?g = "ex_globals\<lparr>cursor_xfer := True\<rparr>"
  let ?g1 = "ex_globals\<lparr>manip_idx := 3, prev_manip_idx := 3,
            manip_clicks := [\<lparr>index = 3, start_t = 1000\<rparr>]\<rparr>"
  let ?g' = "ex_globals\<lparr>manip_idx := 7, prev_manip_idx := 7,
            manip_clicks := [\<lparr>index = 3, start_t = 1000\<rparr>, \<lparr>index = 7, start_t = 1000\<rparr>],
            cursor_xfer := True, last_draw_t := 1001, countup := 3, todraw := 1\<rparr>"
  let ?hs = "[ex_read 3, ex_read 3, ex_read 7]"
  have a: "resolve_manip_complete (ex_read 3) ?g =
     Inr (?g1, [GlBindBuffer 1, GlMapBuffer, GlUnmapBuffer, GlBindBuffer 0])"
    by (simp add: ex_defs frame_defs)
  have b: "manip_clicks ?g = []" by (simp add: ex_defs)
  have c: "run_frames ?hs ?g = Inr (?g', calls_of (run_frames ?hs ?g))"
    by (simp add: ex_defs frame_defs calls_of_def)
  have d: "globals_of (run_frames ?hs ?g) = Some ?g'"
    by (subst c) (rule globals_of_Inr)
  from click_log_dedup [of "ex_read 3" ?g ?g1
      "[GlBindBuffer 1, GlMapBuffer, GlUnmapBuffer, GlBindBuffer 0]" ?hs ?g'
      "calls_of (run_frames ?hs ?g)"] b c
  have "distinct_adj (map index (manip_clicks ?g'))"
    by blast
  with a b d show ?thesis by blast
qed

text \<open>
  Claim C4, as the code has it. Three frames in a row run their passes, the first with a
  transfer pending; their map attempts read \<open>k\<close> (not the sentinel), the sentinel, and
  \<open>k\<close> again. The first frame appends one entry for \<open>k\<close> unless \<open>k\<close> was the previously
  recorded index already; the second and the third append nothing: the sentinel does not
  reset \<^verbatim>\<open>prev_manip_idx\<close>, so the second \<open>k\<close> is taken for a repeat.
\<close>

theorem repeat_after_sentinel_not_appended:
  assumes "cursor_xfer g" and "k \<noteq> UINT16_MAX"
    and "map_data h1 = Some k" and "map_data h2 = Some UINT16_MAX" and "map_data h3 = Some k"
    and "draw_passes h1 g = Inr (g1, c1)"
    and "draw_passes h2 g1 = Inr (g2, c2)"
    and "draw_passes h3 g2 = Inr (g3, c3)"
  shows "manip_clicks g1 =
           (if prev_manip_idx g = k then manip_clicks g
            else manip_clicks g @ [\<lparr>index = k, start_t = clock_resolve h1\<rparr>]) \<and>
         manip_clicks g2 = manip_clicks g1 \<and> manip_clicks g3 = manip_clicks g1"
proof -
  from draw_passes_Inr [OF assms(6)] obtain a ca where
    a: "resolve_manip_complete h1 g = Inr (a, ca)" "manip_clicks g1 = manip_clicks a"
       "prev_manip_idx g1 = prev_manip_idx a" "cursor_xfer g1"
    by blast
  from draw_passes_Inr [OF assms(7)] obtain b cb where
    b: "resolve_manip_complete h2 g1 = Inr (b, cb)" "manip_clicks g2 = manip_clicks b"
       "prev_manip_idx g2 = prev_manip_idx b" "cursor_xfer g2"
    by blast
  from draw_passes_Inr [OF assms(8)] obtain c cc where
    c: "resolve_manip_complete h3 g2 = Inr (c, cc)" "manip_clicks g3 = manip_clicks c"
    by blast
  from drain_read [OF assms(1) assms(3) a(1)] assms(2) a(2,3)
  have 1: "prev_manip_idx g1 = k" and
    2: "manip_clicks g1 =
           (if prev_manip_idx g = k then manip_clicks g
            else manip_clicks g @ [\<lparr>index = k, start_t = clock_resolve h1\<rparr>])"
    by (auto split: if_splits)
  from drain_read [OF a(4) assms(4) b(1)] b(2,3) 1
  have 3: "prev_manip_idx g2 = k" and 4: "manip_clicks g2 = manip_clicks g1"
    by auto
  from drain_read [OF b(4) assms(5) c(1)] c(2) 3 4
  have 5: "manip_clicks g3 = manip_clicks g1"
    by auto
  from 2 4 5 show ?thesis by simp
qed

theorem repeat_after_sentinel_not_appended_witness:
  "cursor_xfer (ex_globals\<lparr>cursor_xfer := True\<rparr>) \<and> (3 :: 16 word) \<noteq> UINT16_MAX \<and>
   map_data (ex_read 3) = Some 3 \<and> map_data (ex_read UINT16_MAX) = Some UINT16_MAX \<and>
   globals_of (draw_passes (ex_read 3) (ex_globals\<lparr>cursor_xfer := True\<rparr>)) =
     Some (ex_globals\<lparr>manip_idx := 3, prev_manip_idx := 3,
        manip_clicks := [\<lparr>index = 3, start_t = 1000\<rparr>], cursor_xfer := True,
        last_draw_t := 1001, countup := 1\<rparr>) \<and>
   globals_of (draw_passes (ex_read UINT16_MAX) (ex_globals\<lparr>manip_idx := 3, prev_manip_idx := 3,
        manip_clicks := [\<lparr>index = 3, start_t = 1000\<rparr>], cursor_xfer := True,
        last_draw_t := 1001, countup := 1\<rparr>)) =
     Some (ex_globals\<lparr>manip_idx := UINT16_MAX, prev_manip_idx := 3,
        manip_clicks := [\<lparr>index = 3, start_t = 1000\<rparr>], cursor_xfer := True,
        last_draw_t := 1001, countup := 2, todraw := 1\<rparr>) \<and>
   globals_of (draw_passes (ex_read 3) (ex_globals\<lparr>manip_idx := UINT16_MAX, prev_manip_idx := 3,
        manip_clicks := [\<lparr>index = 3, start_t = 1000\<rparr>], cursor_xfer := True,
        last_draw_t := 1001, countup := 2, todraw := 1\<rparr>)) =
     Some (ex_globals\<lparr>manip_idx := 3, prev_manip_idx := 3,
        manip_clicks := [\<lparr>index = 3, start_t = 1000\<rparr>], cursor_xfer := True,
        last_draw_t := 1001, countup := 3, todraw := 1\<rparr>) \<and>
   manip_clicks (ex_globals\<lparr>manip_idx := 3, prev_manip_idx := 3,
        manip_clicks := [\<lparr>index = 3, start_t = 1000\<rparr>], cursor_xfer := True,
        last_draw_t := 1001, countup := 3, todraw := 1\<rparr>) =
     manip_clicks (ex_globals\<lparr>cursor_xfer := True\<rparr>) @ [\<lparr>index = 3, start_t = 1000\<rparr>]"
proof -
  let ?g = "ex_globals\<lparr>cursor_xfer := True\<rparr>"
  let ?g1 = "ex_globals\<lparr>manip_idx := 3, prev_manip_idx := 3,
        manip_clicks := [\<lparr>index = 3, start_t = 1000\<rparr>], cursor_xfer := True,
        last_draw_t := 1001, countup := 1\<rparr>"
  let ?g2 = "ex_globals\<lparr>manip_idx := UINT16_MAX, prev_manip_idx := 3,
        manip_clicks := [\<lparr>index = 3, start_t = 1000\<rparr>], cursor_xfer := True,
        last_draw_t := 1001, countup := 2, todraw := 1\<rparr>"
  let ?g3 = "ex_globals\<lparr>manip_idx := 3, prev_manip_idx := 3,
        manip_clicks := [\<lparr>index = 3, start_t = 1000\<rparr>], cursor_xfer := True,
        last_draw_t := 1001, countup := 3, todraw := 1\<rparr>"
  have a: "cursor_xfer ?g" by simp
  have b: "(3 :: 16 word) \<noteq> UINT16_MAX" by (simp add: UINT16_MAX_def)
  have c: "map_data (ex_read 3) = Some 3" by (simp add: ex_defs)
  have d: "map_data (ex_read UINT16_MAX) = Some UINT16_MAX" by (simp add: ex_read_def)
  have e: "draw_passes (ex_read 3) ?g = Inr (?g1, calls_of (draw_passes (ex_read 3) ?g))"
    by (simp add: ex_defs frame_defs calls_of_def)
  have f: "draw_passes (ex_read UINT16_MAX) ?g1 =
      Inr (?g2, calls_of (draw_passes (ex_read UINT16_MAX) ?g1))"
    by (simp add: ex_defs frame_defs calls_of_def)
  have g: "draw_passes (ex_read 3) ?g2 = Inr (?g3, calls_of (draw_passes (ex_read 3) ?g2))"
    by (simp add: ex_defs frame_defs calls_of_def)
  have p: "prev_manip_idx ?g \<noteq> 3" by (simp add: ex_defs)
  from repeat_after_sentinel_not_appended [OF a b c d c e f g] p
  have "manip_clicks ?g3 = manip_clicks ?g @ [\<lparr>index = 3, start_t = clock_resolve (ex_read 3)\<rparr>]"
    by simp
  then have "manip_clicks ?g3 = manip_clicks ?g @ [\<lparr>index = 3, start_t = 1000\<rparr>]"
    by (simp add: ex_defs)
  moreover have "globals_of (draw_passes (ex_read 3) ?g) = Some ?g1"
    by (subst e) (rule globals_of_Inr)
  moreover have "globals_of (draw_passes (ex_read UINT16_MAX) ?g1) = Some ?g2"
    by (subst f) (rule globals_of_Inr)
  moreover have "globals_of (draw_passes (ex_read 3) ?g2) = Some ?g3"
    by (subst g) (rule globals_of_Inr)
  ultimately show ?thesis using a b c d by blast
qed

text \<open>
  Claim C4 as stated fails: after readbacks of 3, the sentinel and 3 the log holds the
  one entry that the first readback appended, not two.
\<close>

theorem repeat_after_sentinel_counterexample:
  "map_option manip_clicks (globals_of (run_frames [ex_read 3]
     (ex_globals\<lparr>cursor_xfer := True\<rparr>))) = Some [\<lparr>index = 3, start_t = 1000\<rparr>] \<and>
   map_option manip_clicks
     (globals_of (run_frames [ex_read 3, ex_read UINT16_MAX, ex_read 3]
       (ex_globals\<lparr>cursor_xfer := True\<rparr>))) = Some [\<lparr>index = 3, start_t = 1000\<rparr>]"
  by (simp add: ex_defs frame_defs globals_of_def)

subsection \<open>The pick surface (C5, C6)\<close>

text \<open>
  Claim C5. In a pick pass that runs to its end, the calls up to the draw of the
  manipulator geometry are the drain's calls and the run that binds the pick surface and
  clears it; after them, from any context, the texel of the pick surface holds
  \<open>0xFFFF\<close>, the sentinel. If the scene has no manipulator at the pixel that falls on
  that texel (the viewport dataref having a width and a height that are not negative), the
  value the pass copies into the pixel buffer is the sentinel, and a later drain that maps
  this value sets \<^verbatim>\<open>manip_idx\<close> to the sentinel.
\<close>

theorem pick_surface_cleared_to_sentinel:
  assumes "resolve_manip h mx my pvm g = Inr (g', cs)"
    and "resolve_manip_complete h g = Inr (g1, c1)"
    and "vp = dr_getvi (dr_viewport h) 0 4"
  shows "(\<exists>rest. cs = c1 @ pick_setup_calls h g1 mx my vp @ pick_draw_calls pvm @ rest) \<and>
         fb_red (gl_run scene (c1 @ pick_setup_calls h g1 mx my vp) s) (cursor_fbo g) =
           UINT16_MAX \<and>
         (0 \<le> sint (vp ! 2) \<and> 0 \<le> sint (vp ! 3) \<and>
          scene (- sint (vp ! 0 - mx)) (- sint (vp ! 1 - my)) = None \<longrightarrow>
            buf_data (gl_run scene cs s) (cursor_pbo g) = UINT16_MAX \<and>
            (map_data h' = Some (buf_data (gl_run scene cs s) (cursor_pbo g)) \<longrightarrow>
             resolve_manip_complete h' g' = Inr (g'', cs') \<longrightarrow>
               manip_idx g'' = UINT16_MAX))"
proof -
  note sp = pick_calls_split [OF assms(1,2), folded assms(3)]
  let ?s1 = "gl_run scene c1 s"
  let ?s2 = "gl_run scene (pick_setup_calls h g1 mx my vp) ?s1"
  have cs: "cs = c1 @ pick_setup_calls h g1 mx my vp @ pick_draw_calls pvm @
              pick_read_calls g1 @ pick_restore_calls h g1 vp"
    using sp by simp
  have a: "\<exists>rest. cs = c1 @ pick_setup_calls h g1 mx my vp @ pick_draw_calls pvm @ rest"
    using cs by blast
  have f2: "fb_binding ?s2 = cursor_fbo g" and r2: "fb_red ?s2 (cursor_fbo g) = UINT16_MAX"
    using sp by (simp_all add: gl_run_setup)
  have b: "fb_red (gl_run scene (c1 @ pick_setup_calls h g1 mx my vp) s) (cursor_fbo g) =
           UINT16_MAX"
    using r2 by (simp add: gl_run_append)
  have c: "buf_data (gl_run scene cs s) (cursor_pbo g) = UINT16_MAX"
    if w: "0 \<le> sint (vp ! 2) \<and> 0 \<le> sint (vp ! 3)"
      and u: "scene (- sint (vp ! 0 - mx)) (- sint (vp ! 1 - my)) = None"
  proof -
    have v2: "viewport ?s2 = (vp ! 0 - mx, vp ! 1 - my, vp ! 2, vp ! 3)"
      using w by (simp add: gl_run_setup)
    have d: "gl_run scene (pick_draw_calls pvm) ?s2 = ?s2"
      using gl_draw_uncovered [where scene = scene, OF v2 u] by (simp add: gl_run_draw)
    have p: "cursor_pbo g1 \<noteq> 0" using sp by simp
    have "gl_run scene cs s =
        gl_run scene (pick_restore_calls h g1 vp) (gl_run scene (pick_read_calls g1) ?s2)"
      by (simp add: cs gl_run_append d)
    then show ?thesis
      using sp f2 r2 by (simp add: gl_run_read [OF p] gl_run_restore)
  qed
  have e: "manip_idx g'' = UINT16_MAX"
    if w: "0 \<le> sint (vp ! 2) \<and> 0 \<le> sint (vp ! 3)"
      and u: "scene (- sint (vp ! 0 - mx)) (- sint (vp ! 1 - my)) = None"
      and m: "map_data h' = Some (buf_data (gl_run scene cs s) (cursor_pbo g))"
      and r: "resolve_manip_complete h' g' = Inr (g'', cs')"
  proof -
    have x: "cursor_xfer g'" using sp by simp
    from drain_read [OF x m r] c [OF w u] show ?thesis by simp
  qed
  from a b c e show ?thesis by blast
qed

theorem pick_surface_cleared_to_sentinel_witness:
  "resolve_manip ex_host 200 100 Dr_acf_matrix (ex_globals\<lparr>manip_idx := 3\<rparr>) =
     Inr (ex_globals\<lparr>manip_idx := 3, cursor_xfer := True\<rparr>,
          calls_of (resolve_manip ex_host 200 100 Dr_acf_matrix (ex_globals\<lparr>manip_idx := 3\<rparr>))) \<and>
   resolve_manip_complete ex_host (ex_globals\<lparr>manip_idx := 3\<rparr>) =
     Inr (ex_globals\<lparr>manip_idx := 3\<rparr>, []) \<and>
   ex_scene (- sint ([0, 0, 800, 600 :: 32 word] ! 0 - 200))
            (- sint ([0, 0, 800, 600 :: 32 word] ! 1 - 100)) = None \<and>
   fb_red (gl_run ex_scene
     ([] @ pick_setup_calls ex_host (ex_globals\<lparr>manip_idx := 3\<rparr>) 200 100 [0, 0, 800, 600])
     ex_gl) (cursor_fbo (ex_globals\<lparr>manip_idx := 3\<rparr>)) = UINT16_MAX \<and>
   buf_data (gl_run ex_scene
     (calls_of (resolve_manip ex_host 200 100 Dr_acf_matrix (ex_globals\<lparr>manip_idx := 3\<rparr>)))
     ex_gl) (cursor_pbo (ex_globals\<lparr>manip_idx := 3\<rparr>)) = UINT16_MAX \<and>
   resolve_manip_complete (ex_read UINT16_MAX)
     (ex_globals\<lparr>manip_idx := 3, cursor_xfer := True\<rparr>) =
     Inr (ex_globals, [GlBindBuffer 1, GlMapBuffer, GlUnmapBuffer, GlBindBuffer 0]) \<and>
   manip_idx ex_globals = UINT16_MAX"
proof -
  let ?g = "ex_globals\<lparr>manip_idx := 3\<rparr>"
  let ?g' = "ex_globals\<lparr>manip_idx := 3, cursor_xfer := True\<rparr>"
  let ?cs = "calls_of (resolve_manip ex_host 200 100 Dr_acf_matrix ?g)"
  let ?vp = "[0, 0, 800, 600 :: 32 word]"
  have a: "resolve_manip ex_host 200 100 Dr_acf_matrix ?g = Inr (?g', ?cs)"
    by (simp add: ex_defs frame_defs calls_of_def)
  have b: "resolve_manip_complete ex_host ?g = Inr (?g, [])"
    by (simp add: ex_defs frame_defs)
  have v: "?vp = dr_getvi (dr_viewport ex_host) 0 4"
    by (simp add: ex_defs dr_getvi_def)
  have u: "ex_scene (- sint (?vp ! 0 - 200)) (- sint (?vp ! 1 - 100)) = None"
    by (simp add: ex_scene_def)
  have r: "resolve_manip_complete (ex_read UINT16_MAX) ?g' =
     Inr (ex_globals, [GlBindBuffer 1, GlMapBuffer, GlUnmapBuffer, GlBindBuffer 0])"
    by (simp add: ex_defs frame_defs)
  note t = pick_surface_cleared_to_sentinel [OF a b v, of ex_scene ex_gl "ex_read UINT16_MAX"
      ex_globals "[GlBindBuffer 1, GlMapBuffer, GlUnmapBuffer, GlBindBuffer 0]"]
  from t have 1: "fb_red (gl_run ex_scene ([] @ pick_setup_calls ex_host ?g 200 100 ?vp) ex_gl)
      (cursor_fbo ?g) = UINT16_MAX"
    by blast
  have w: "0 \<le> sint (?vp ! 2) \<and> 0 \<le> sint (?vp ! 3)" by simp
  from t w u have 2: "buf_data (gl_run ex_scene ?cs ex_gl) (cursor_pbo ?g) = UINT16_MAX"
    by blast
  have m: "map_data (ex_read UINT16_MAX) = Some (buf_data (gl_run ex_scene ?cs ex_gl) (cursor_pbo ?g))"
    unfolding 2 by (simp add: ex_read_def)
  from t w u m r have 3: "manip_idx ex_globals = UINT16_MAX"
    by blast
  from a b u 1 2 r 3 show ?thesis by blast
qed

text \<open>
  Claim C6. With the viewport dataref \<open>vp\<close> and the pointer \<open>(mx, my)\<close>, the pick pass
  binds the pick surface and then calls \<^verbatim>\<open>glViewport\<close> with
  \<open>(vp[0] - mx, vp[1] - my, vp[2], vp[3])\<close>; this is the binding and, for a width and a
  height that are not negative, the viewport in force when the manipulator geometry is
  drawn. For a pointer inside the viewport the
  subtractions do not wrap, and after the draw the texel (0,0) of the pick surface holds
  what the scene has at the pointer's pixel, \<open>(mx - vp[0], my - vp[1])\<close> from the viewport
  origin: the manipulator index there, or the sentinel.
\<close>

theorem pick_viewport_offset:
  assumes "resolve_manip h mx my pvm g = Inr (g', cs)"
    and "resolve_manip_complete h g = Inr (g1, c1)"
    and "vp = dr_getvi (dr_viewport h) 0 4"
  shows "(\<exists>rest. cs = c1 @ [GlBindFramebufferEXT (cursor_fbo g),
                           GlViewport (vp ! 0 - mx) (vp ! 1 - my) (vp ! 2) (vp ! 3)] @ rest) \<and>
         fb_binding (gl_run scene (c1 @ pick_setup_calls h g1 mx my vp) s) = cursor_fbo g \<and>
         (0 \<le> sint (vp ! 2) \<and> 0 \<le> sint (vp ! 3) \<longrightarrow>
            viewport (gl_run scene (c1 @ pick_setup_calls h g1 mx my vp) s) =
              (vp ! 0 - mx, vp ! 1 - my, vp ! 2, vp ! 3)) \<and>
         (sint (vp ! 0) \<le> sint mx \<and> sint mx < sint (vp ! 0) + sint (vp ! 2) \<and>
          sint (vp ! 1) \<le> sint my \<and> sint my < sint (vp ! 1) + sint (vp ! 3) \<longrightarrow>
            sint (vp ! 0 - mx) = sint (vp ! 0) - sint mx \<and>
            sint (vp ! 1 - my) = sint (vp ! 1) - sint my \<and>
            fb_red (gl_run scene (c1 @ pick_setup_calls h g1 mx my vp @ pick_draw_calls pvm) s)
              (cursor_fbo g) =
              (case scene (sint mx - sint (vp ! 0)) (sint my - sint (vp ! 1)) of
                 None \<Rightarrow> UINT16_MAX | Some i \<Rightarrow> i))"
proof -
  note sp = pick_calls_split [OF assms(1,2), folded assms(3)]
  let ?s1 = "gl_run scene c1 s"
  let ?s2 = "gl_run scene (pick_setup_calls h g1 mx my vp) ?s1"
  have a: "\<exists>rest. cs = c1 @ [GlBindFramebufferEXT (cursor_fbo g),
                           GlViewport (vp ! 0 - mx) (vp ! 1 - my) (vp ! 2) (vp ! 3)] @ rest"
    using sp by (simp add: pick_setup_calls_def)
  have v2: "viewport ?s2 = (vp ! 0 - mx, vp ! 1 - my, vp ! 2, vp ! 3)"
    if "0 \<le> sint (vp ! 2) \<and> 0 \<le> sint (vp ! 3)"
    using that by (simp add: gl_run_setup)
  have f2: "fb_binding ?s2 = cursor_fbo g" and r2: "fb_red ?s2 (cursor_fbo g) = UINT16_MAX"
    using sp by (simp_all add: gl_run_setup)
  have c: "sint (vp ! 0 - mx) = sint (vp ! 0) - sint mx \<and>
            sint (vp ! 1 - my) = sint (vp ! 1) - sint my \<and>
            fb_red (gl_run scene (c1 @ pick_setup_calls h g1 mx my vp @ pick_draw_calls pvm) s)
              (cursor_fbo g) =
              (case scene (sint mx - sint (vp ! 0)) (sint my - sint (vp ! 1)) of
                 None \<Rightarrow> UINT16_MAX | Some i \<Rightarrow> i)"
    if i: "sint (vp ! 0) \<le> sint mx \<and> sint mx < sint (vp ! 0) + sint (vp ! 2) \<and>
          sint (vp ! 1) \<le> sint my \<and> sint my < sint (vp ! 1) + sint (vp ! 3)"
  proof -
    have wx: "sint (vp ! 2) < 2 ^ 31" using sint_lt [of "vp ! 2"] by simp
    have wy: "sint (vp ! 3) < 2 ^ 31" using sint_lt [of "vp ! 3"] by simp
    have w: "0 \<le> sint (vp ! 2) \<and> 0 \<le> sint (vp ! 3)" using i by linarith
    have x: "sint (vp ! 0 - mx) = sint (vp ! 0) - sint mx"
      using i wx by (intro sint_sub_in_range) linarith+
    have y: "sint (vp ! 1 - my) = sint (vp ! 1) - sint my"
      using i wy by (intro sint_sub_in_range) linarith+
    have "fb_red (gl_call scene (Obj8_draw_group Resolve_shader pvm) ?s2) (cursor_fbo g) =
          (case scene (sint mx - sint (vp ! 0)) (sint my - sint (vp ! 1)) of
                 None \<Rightarrow> UINT16_MAX | Some i \<Rightarrow> i)"
      using i v2 [OF w] f2 r2 x y by (simp split: option.split)
    then show ?thesis
      using x y by (simp add: gl_run_append gl_run_draw)
  qed
  from a f2 v2 c show ?thesis by (simp add: gl_run_append)
qed

theorem pick_viewport_offset_witness:
  "resolve_manip ex_host 100 100 Dr_acf_matrix ex_globals =
     Inr (ex_globals\<lparr>cursor_xfer := True\<rparr>,
          calls_of (resolve_manip ex_host 100 100 Dr_acf_matrix ex_globals)) \<and>
   resolve_manip_complete ex_host ex_globals = Inr (ex_globals, []) \<and>
   dr_getvi (dr_viewport ex_host) 0 4 = [0, 0, 800, 600] \<and>
   viewport (gl_run ex_scene
     ([] @ pick_setup_calls ex_host ex_globals 100 100 [0, 0, 800, 600]) ex_gl) =
     (- 100, - 100, 800, 600) \<and>
   sint (- 100 :: 32 word) = - 100 \<and>
   fb_red (gl_run ex_scene
     ([] @ pick_setup_calls ex_host ex_globals 100 100 [0, 0, 800, 600] @
      pick_draw_calls Dr_acf_matrix) ex_gl) (cursor_fbo ex_globals) = 7"
proof -
  let ?cs = "calls_of (resolve_manip ex_host 100 100 Dr_acf_matrix ex_globals)"
  let ?vp = "[0, 0, 800, 600 :: 32 word]"
  have a: "resolve_manip ex_host 100 100 Dr_acf_matrix ex_globals =
     Inr (ex_globals\<lparr>cursor_xfer := True\<rparr>, ?cs)"
    by (simp add: ex_defs frame_defs calls_of_def)
  have b: "resolve_manip_complete ex_host ex_globals = Inr (ex_globals, [])"
    by (simp add: ex_defs frame_defs)
  have v: "?vp = dr_getvi (dr_viewport ex_host) 0 4"
    by (simp add: ex_defs dr_getvi_def)
  have i: "sint (?vp ! 0) \<le> sint (100 :: 32 word) \<and>
           sint (100 :: 32 word) < sint (?vp ! 0) + sint (?vp ! 2) \<and>
           sint (?vp ! 1) \<le> sint (100 :: 32 word) \<and>
           sint (100 :: 32 word) < sint (?vp ! 1) + sint (?vp ! 3)"
    by simp
  have e: "(case ex_scene (sint (100 :: 32 word) - sint (?vp ! 0))
                 (sint (100 :: 32 word) - sint (?vp ! 1)) of
              None \<Rightarrow> UINT16_MAX | Some i \<Rightarrow> i) = 7"
    by (simp add: ex_scene_def)
  note t = pick_viewport_offset [OF a b v, of ex_scene ex_gl]
  have w: "0 \<le> sint (?vp ! 2) \<and> 0 \<le> sint (?vp ! 3)" by simp
  from t w have 1: "viewport (gl_run ex_scene
     ([] @ pick_setup_calls ex_host ex_globals 100 100 ?vp) ex_gl) =
     (?vp ! 0 - 100, ?vp ! 1 - 100, ?vp ! 2, ?vp ! 3)"
    by blast
  have 2: "viewport (gl_run ex_scene
     ([] @ pick_setup_calls ex_host ex_globals 100 100 ?vp) ex_gl) = (- 100, - 100, 800, 600)"
    unfolding 1 by simp
  from t i have "fb_red (gl_run ex_scene
     ([] @ pick_setup_calls ex_host ex_globals 100 100 ?vp @ pick_draw_calls Dr_acf_matrix)
     ex_gl) (cursor_fbo ex_globals) =
     (case ex_scene (sint (100 :: 32 word) - sint (?vp ! 0))
                 (sint (100 :: 32 word) - sint (?vp ! 1)) of
              None \<Rightarrow> UINT16_MAX | Some i \<Rightarrow> i)"
    by blast
  then have 3: "fb_red (gl_run ex_scene
     ([] @ pick_setup_calls ex_host ex_globals 100 100 ?vp @ pick_draw_calls Dr_acf_matrix)
     ex_gl) (cursor_fbo ex_globals) = 7"
    unfolding e .
  have 4: "sint (- 100 :: 32 word) = - 100" by simp
  from a b v [symmetric] 2 4 3 show ?thesis by blast
qed

subsection \<open>The bounds check (C7, C10)\<close>

text \<open>
  Claim C7. Let the viewport dataref hold \<open>(x, y, w, ht)\<close>, with \<open>x + w\<close> and \<open>y + ht\<close>
  representable as \<^verbatim>\<open>int\<close> (the sums the check computes). If the pointer lies outside the
  rectangle from \<open>(x, y)\<close> to \<open>(x + w, y + ht)\<close>, the callback returns the variables
  unchanged and has made no call: neither pass ran. If it lies in the rectangle, the
  callback is the two passes; and once the pick surface, the pixel buffer and the cockpit
  object exist, the frame runs to its end, the pick pass has issued its copy and set the
  pending flag, and the highlight pass has drawn.
\<close>

theorem pointer_outside_skips_frame:
  assumes "dr_getvi (dr_viewport h) 0 4 = [x, y, w, ht]"
    and "- (2 ^ 31) \<le> sint x + sint w" and "sint x + sint w < 2 ^ 31"
    and "- (2 ^ 31) \<le> sint y + sint ht" and "sint y + sint ht < 2 ^ 31"
  shows "(sint (mouse_x h) < sint x \<or> sint x + sint w < sint (mouse_x h) \<or>
          sint (mouse_y h) < sint y \<or> sint y + sint ht < sint (mouse_y h) \<longrightarrow>
            draw_cb h g = Inr (g, [])) \<and>
         (sint x \<le> sint (mouse_x h) \<and> sint (mouse_x h) \<le> sint x + sint w \<and>
          sint y \<le> sint (mouse_y h) \<and> sint (mouse_y h) \<le> sint y + sint ht \<longrightarrow>
            draw_cb h g = draw_passes h g \<and>
            (cursor_fbo g \<noteq> 0 \<and> cursor_pbo g \<noteq> 0 \<and> obj g \<noteq> None \<longrightarrow>
               (\<exists>g' cs. draw_cb h g = Inr (g', cs) \<and> cursor_xfer g' \<and>
                  countup g' = countup g + 1 \<and> GlReadPixels 0 0 1 1 \<in> set cs \<and>
                  Obj8_draw_group_by_cmdidx (indexToPaint g) Paint_shader
                    (glm_mat4_mul Dr_proj_matrix_3d Dr_acf_matrix) \<in> set cs)))"
proof (intro conjI impI)
  assume "sint (mouse_x h) < sint x \<or> sint x + sint w < sint (mouse_x h) \<or>
          sint (mouse_y h) < sint y \<or> sint y + sint ht < sint (mouse_y h)"
  then show "draw_cb h g = Inr (g, [])"
    by (simp add: draw_cb_bounds [OF assms])
next
  assume i: "sint x \<le> sint (mouse_x h) \<and> sint (mouse_x h) \<le> sint x + sint w \<and>
          sint y \<le> sint (mouse_y h) \<and> sint (mouse_y h) \<le> sint y + sint ht"
  then show "draw_cb h g = draw_passes h g"
    by (simp add: draw_cb_bounds [OF assms] not_less)
next
  assume i: "sint x \<le> sint (mouse_x h) \<and> sint (mouse_x h) \<le> sint x + sint w \<and>
          sint y \<le> sint (mouse_y h) \<and> sint (mouse_y h) \<le> sint y + sint ht"
    and r: "cursor_fbo g \<noteq> 0 \<and> cursor_pbo g \<noteq> 0 \<and> obj g \<noteq> None"
  from i have e: "draw_cb h g = draw_passes h g"
    by (simp add: draw_cb_bounds [OF assms] not_less)
  from assms(1) have l: "length (dr_getvi (dr_viewport h) 0 4) = 4" by simp
  from r draw_passes_ready [OF l, of g]
  show "\<exists>g' cs. draw_cb h g = Inr (g', cs) \<and> cursor_xfer g' \<and>
                  countup g' = countup g + 1 \<and> GlReadPixels 0 0 1 1 \<in> set cs \<and>
                  Obj8_draw_group_by_cmdidx (indexToPaint g) Paint_shader
                    (glm_mat4_mul Dr_proj_matrix_3d Dr_acf_matrix) \<in> set cs"
    unfolding e by blast
qed

theorem pointer_outside_skips_frame_witness:
  "dr_getvi (dr_viewport ex_host) 0 4 = [0, 0, 800, 600] \<and>
   sint (mouse_x (ex_host\<lparr>mouse_x := - 5\<rparr>)) < sint (0 :: 32 word) \<and>
   draw_cb (ex_host\<lparr>mouse_x := - 5\<rparr>) ex_globals = Inr (ex_globals, []) \<and>
   sint (0 :: 32 word) \<le> sint (mouse_x ex_host) \<and>
   sint (mouse_x ex_host) \<le> sint (0 :: 32 word) + sint (800 :: 32 word) \<and>
   sint (0 :: 32 word) \<le> sint (mouse_y ex_host) \<and>
   sint (mouse_y ex_host) \<le> sint (0 :: 32 word) + sint (600 :: 32 word) \<and>
   draw_cb ex_host ex_globals = draw_passes ex_host ex_globals \<and>
   globals_of (draw_passes ex_host ex_globals) =
     Some (ex_globals\<lparr>cursor_xfer := True, last_draw_t := 1001, countup := 1\<rparr>)"
proof -
  let ?out = "ex_host\<lparr>mouse_x := - 5\<rparr>"
  have v: "dr_getvi (dr_viewport ex_host) 0 4 = [0, 0, 800, 600]"
    by (simp add: ex_defs dr_getvi_def)
  have v': "dr_getvi (dr_viewport ?out) 0 4 = [0, 0, 800, 600]"
    by (simp add: ex_defs dr_getvi_def)
  have r: "- (2 ^ 31) \<le> sint (0 :: 32 word) + sint (800 :: 32 word)"
    "sint (0 :: 32 word) + sint (800 :: 32 word) < 2 ^ 31"
    "- (2 ^ 31) \<le> sint (0 :: 32 word) + sint (600 :: 32 word)"
    "sint (0 :: 32 word) + sint (600 :: 32 word) < 2 ^ 31"
    by simp_all
  have o: "sint (mouse_x ?out) < sint (0 :: 32 word)" by simp
  have i: "sint (0 :: 32 word) \<le> sint (mouse_x ex_host)"
    "sint (mouse_x ex_host) \<le> sint (0 :: 32 word) + sint (800 :: 32 word)"
    "sint (0 :: 32 word) \<le> sint (mouse_y ex_host)"
    "sint (mouse_y ex_host) \<le> sint (0 :: 32 word) + sint (600 :: 32 word)"
    by (simp_all add: ex_defs)
  have p: "globals_of (draw_passes ex_host ex_globals) =
     Some (ex_globals\<lparr>cursor_xfer := True, last_draw_t := 1001, countup := 1\<rparr>)"
    by (simp add: ex_defs frame_defs globals_of_def)
  from pointer_outside_skips_frame [OF v' r, of ex_globals] o
  have 1: "draw_cb ?out ex_globals = Inr (ex_globals, [])" by blast
  from pointer_outside_skips_frame [OF v r, of ex_globals] i
  have 2: "draw_cb ex_host ex_globals = draw_passes ex_host ex_globals" by blast
  from v o 1 i 2 p show ?thesis by blast
qed

text \<open>
  Claim C10. Let the viewport dataref hold \<open>(x, y, w, ht)\<close> with \<open>w\<close> and \<open>ht\<close> not
  negative and \<open>x + w\<close>, \<open>y + ht\<close> representable. A pointer exactly on the right edge
  (\<open>pointer.x = x + w\<close>, its \<open>y\<close> in range) or exactly on the top edge
  (\<open>pointer.y = y + ht\<close>, its \<open>x\<close> in range) is in bounds: the callback runs the two
  passes. The comparisons are strict: one pixel further right or up, the frame is skipped.
\<close>

theorem pointer_on_edge_in_bounds:
  assumes "dr_getvi (dr_viewport h) 0 4 = [x, y, w, ht]"
    and "0 \<le> sint w" and "sint x + sint w < 2 ^ 31"
    and "0 \<le> sint ht" and "sint y + sint ht < 2 ^ 31"
  shows "(sint (mouse_x h) = sint x + sint w \<and>
          sint y \<le> sint (mouse_y h) \<and> sint (mouse_y h) \<le> sint y + sint ht \<longrightarrow>
            draw_cb h g = draw_passes h g) \<and>
         (sint (mouse_y h) = sint y + sint ht \<and>
          sint x \<le> sint (mouse_x h) \<and> sint (mouse_x h) \<le> sint x + sint w \<longrightarrow>
            draw_cb h g = draw_passes h g) \<and>
         (sint (mouse_x h) = sint x + sint w + 1 \<or> sint (mouse_y h) = sint y + sint ht + 1 \<longrightarrow>
            draw_cb h g = Inr (g, []))"
proof -
  have lx: "- (2 ^ 31) \<le> sint x" using sint_ge [of x] by simp
  have ly: "- (2 ^ 31) \<le> sint y" using sint_ge [of y] by simp
  from lx assms(2) have a: "- (2 ^ 31) \<le> sint x + sint w" by linarith
  from ly assms(4) have b: "- (2 ^ 31) \<le> sint y + sint ht" by linarith
  note bounds = draw_cb_bounds [OF assms(1) a assms(3) b assms(5)]
  show ?thesis using assms(2,4) by (auto simp: bounds)
qed

theorem pointer_on_edge_in_bounds_witness:
  "dr_getvi (dr_viewport ex_host) 0 4 = [0, 0, 800, 600] \<and>
   sint (mouse_x (ex_host\<lparr>mouse_x := 800\<rparr>)) = sint (0 :: 32 word) + sint (800 :: 32 word) \<and>
   draw_cb (ex_host\<lparr>mouse_x := 800\<rparr>) ex_globals =
     draw_passes (ex_host\<lparr>mouse_x := 800\<rparr>) ex_globals \<and>
   globals_of (draw_passes (ex_host\<lparr>mouse_x := 800\<rparr>) ex_globals) =
     Some (ex_globals\<lparr>cursor_xfer := True, last_draw_t := 1001, countup := 1\<rparr>) \<and>
   sint (mouse_y (ex_host\<lparr>mouse_y := 600\<rparr>)) = sint (0 :: 32 word) + sint (600 :: 32 word) \<and>
   draw_cb (ex_host\<lparr>mouse_y := 600\<rparr>) ex_globals =
     draw_passes (ex_host\<lparr>mouse_y := 600\<rparr>) ex_globals \<and>
   globals_of (draw_passes (ex_host\<lparr>mouse_y := 600\<rparr>) ex_globals) =
     Some (ex_globals\<lparr>cursor_xfer := True, last_draw_t := 1001, countup := 1\<rparr>) \<and>
   sint (mouse_x (ex_host\<lparr>mouse_x := 801\<rparr>)) =
     sint (0 :: 32 word) + sint (800 :: 32 word) + 1 \<and>
   draw_cb (ex_host\<lparr>mouse_x := 801\<rparr>) ex_globals = Inr (ex_globals, [])"
proof -
  let ?r = "ex_host\<lparr>mouse_x := 800\<rparr>"
  let ?t = "ex_host\<lparr>mouse_y := 600\<rparr>"
  let ?b = "ex_host\<lparr>mouse_x := 801\<rparr>"
  have v: "dr_getvi (dr_viewport ex_host) 0 4 = [0, 0, 800, 600]"
    "dr_getvi (dr_viewport ?r) 0 4 = [0, 0, 800, 600]"
    "dr_getvi (dr_viewport ?t) 0 4 = [0, 0, 800, 600]"
    "dr_getvi (dr_viewport ?b) 0 4 = [0, 0, 800, 600]"
    by (simp_all add: ex_defs dr_getvi_def)
  have r: "0 \<le> sint (800 :: 32 word)"
    "sint (0 :: 32 word) + sint (800 :: 32 word) < 2 ^ 31"
    "0 \<le> sint (600 :: 32 word)"
    "sint (0 :: 32 word) + sint (600 :: 32 word) < 2 ^ 31"
    by simp_all
  have er: "sint (mouse_x ?r) = sint (0 :: 32 word) + sint (800 :: 32 word)"
    "sint (0 :: 32 word) \<le> sint (mouse_y ?r)"
    "sint (mouse_y ?r) \<le> sint (0 :: 32 word) + sint (600 :: 32 word)"
    by (simp_all add: ex_defs)
  have et: "sint (mouse_y ?t) = sint (0 :: 32 word) + sint (600 :: 32 word)"
    "sint (0 :: 32 word) \<le> sint (mouse_x ?t)"
    "sint (mouse_x ?t) \<le> sint (0 :: 32 word) + sint (800 :: 32 word)"
    by (simp_all add: ex_defs)
  have eb: "sint (mouse_x ?b) = sint (0 :: 32 word) + sint (800 :: 32 word) + 1"
    by simp
  have pr: "globals_of (draw_passes ?r ex_globals) =
     Some (ex_globals\<lparr>cursor_xfer := True, last_draw_t := 1001, countup := 1\<rparr>)"
    by (simp add: ex_defs frame_defs globals_of_def)
  have pt: "globals_of (draw_passes ?t ex_globals) =
     Some (ex_globals\<lparr>cursor_xfer := True, last_draw_t := 1001, countup := 1\<rparr>)"
    by (simp add: ex_defs frame_defs globals_of_def)
  from pointer_on_edge_in_bounds [OF v(2) r, of ex_globals] er
  have 1: "draw_cb ?r ex_globals = draw_passes ?r ex_globals" by blast
  from pointer_on_edge_in_bounds [OF v(3) r, of ex_globals] et
  have 2: "draw_cb ?t ex_globals = draw_passes ?t ex_globals" by blast
  from pointer_on_edge_in_bounds [OF v(4) r, of ex_globals] eb
  have 3: "draw_cb ?b ex_globals = Inr (ex_globals, [])" by blast
  from v(1) er(1) 1 pr et(1) 2 pt eb 3 show ?thesis by blast
qed

subsection \<open>The host context after the pass (C8)\<close>

text \<open>
  Claim C8, as the code has it. After a pick pass the framebuffer binding is the value of
  the host's \<^verbatim>\<open>current_gl_fbo\<close> dataref, the viewport is the host's viewport dataref
  (left as it was if that has a negative width or height), depth test and depth mask are
  off; in reversed-Z mode the depth function is
  \<^verbatim>\<open>GL_LESS\<close> and the clear depth 1, otherwise both are what they were before the pass.
  So the pass gives back the prior values of all six exactly when the prior context had
  these values.
\<close>

theorem pick_pass_leaves_host_state:
  assumes "resolve_manip h mx my pvm g = Inr (g', cs)"
    and "vp = dr_getvi (dr_viewport h) 0 4"
  shows "fb_binding (gl_run scene cs s) = dr_fbo h \<and>
         viewport (gl_run scene cs s) =
           (if 0 \<le> sint (vp ! 2) \<and> 0 \<le> sint (vp ! 3)
            then (vp ! 0, vp ! 1, vp ! 2, vp ! 3) else viewport s) \<and>
         \<not> depth_test (gl_run scene cs s) \<and> \<not> depth_mask (gl_run scene cs s) \<and>
         depth_func (gl_run scene cs s) =
           (if is_rev_float_z h g then GL_LESS else depth_func s) \<and>
         clear_depth (gl_run scene cs s) =
           (if is_rev_float_z h g then 1 else clear_depth s) \<and>
         (fb_binding s = dr_fbo h \<and> viewport s = (vp ! 0, vp ! 1, vp ! 2, vp ! 3) \<and>
          \<not> depth_test s \<and> \<not> depth_mask s \<and>
          (is_rev_float_z h g \<longrightarrow> depth_func s = GL_LESS \<and> clear_depth s = 1) \<longrightarrow>
            fb_binding (gl_run scene cs s) = fb_binding s \<and>
            viewport (gl_run scene cs s) = viewport s \<and>
            depth_test (gl_run scene cs s) = depth_test s \<and>
            depth_mask (gl_run scene cs s) = depth_mask s \<and>
            depth_func (gl_run scene cs s) = depth_func s \<and>
            clear_depth (gl_run scene cs s) = clear_depth s)"
proof -
  from resolve_manip_Inr [OF assms(1)] obtain g1 c1 where
    d: "resolve_manip_complete h g = Inr (g1, c1)" by blast
  note sp = pick_calls_split [OF assms(1) d, folded assms(2)]
  let ?s1 = "gl_run scene c1 s"
  let ?s2 = "gl_run scene (pick_setup_calls h g1 mx my vp) ?s1"
  let ?s3 = "gl_run scene (pick_draw_calls pvm) ?s2"
  let ?s4 = "gl_run scene (pick_read_calls g1) ?s3"
  have p: "cursor_pbo g1 \<noteq> 0" using sp by simp
  have 1: "depth_func ?s1 = depth_func s \<and> clear_depth ?s1 = clear_depth s \<and>
           viewport ?s1 = viewport s"
    using gl_run_drain [OF d, of scene s] by auto
  have 2: "depth_func ?s2 = (if is_rev_float_z h g then GL_GREATER else depth_func s) \<and>
           clear_depth ?s2 = (if is_rev_float_z h g then 0 else clear_depth s) \<and>
           (\<not> (0 \<le> sint (vp ! 2) \<and> 0 \<le> sint (vp ! 3)) \<longrightarrow> viewport ?s2 = viewport s)"
    using 1 sp by (simp add: gl_run_setup)
  have 3: "depth_func ?s3 = depth_func ?s2 \<and> clear_depth ?s3 = clear_depth ?s2 \<and>
           viewport ?s3 = viewport ?s2"
    by (simp add: gl_run_draw split: prod.split option.split)
  have 4: "depth_func ?s4 = depth_func ?s3 \<and> clear_depth ?s4 = clear_depth ?s3 \<and>
           viewport ?s4 = viewport ?s3"
    by (simp add: gl_run_read [OF p])
  have "gl_run scene cs s = gl_run scene (pick_restore_calls h g1 vp) ?s4"
    using sp by (simp add: gl_run_append)
  then have "fb_binding (gl_run scene cs s) = dr_fbo h \<and>
         viewport (gl_run scene cs s) =
           (if 0 \<le> sint (vp ! 2) \<and> 0 \<le> sint (vp ! 3)
            then (vp ! 0, vp ! 1, vp ! 2, vp ! 3) else viewport s) \<and>
         \<not> depth_test (gl_run scene cs s) \<and> \<not> depth_mask (gl_run scene cs s) \<and>
         depth_func (gl_run scene cs s) =
           (if is_rev_float_z h g then GL_LESS else depth_func s) \<and>
         clear_depth (gl_run scene cs s) =
           (if is_rev_float_z h g then 1 else clear_depth s)"
    using 2 3 4 sp by (simp add: gl_run_restore)
  then show ?thesis by auto
qed

theorem pick_pass_leaves_host_state_witness:
  "resolve_manip ex_host 100 100 Dr_acf_matrix ex_globals =
     Inr (ex_globals\<lparr>cursor_xfer := True\<rparr>,
          calls_of (resolve_manip ex_host 100 100 Dr_acf_matrix ex_globals)) \<and>
   dr_getvi (dr_viewport ex_host) 0 4 = [0, 0, 800, 600] \<and>
   fb_binding (ex_gl\<lparr>depth_test := False, depth_mask := False\<rparr>) = dr_fbo ex_host \<and>
   viewport (ex_gl\<lparr>depth_test := False, depth_mask := False\<rparr>) = (0, 0, 800, 600) \<and>
   \<not> is_rev_float_z ex_host ex_globals \<and>
   fb_binding (gl_run ex_scene
     (calls_of (resolve_manip ex_host 100 100 Dr_acf_matrix ex_globals))
     (ex_gl\<lparr>depth_test := False, depth_mask := False\<rparr>)) = 0 \<and>
   viewport (gl_run ex_scene
     (calls_of (resolve_manip ex_host 100 100 Dr_acf_matrix ex_globals))
     (ex_gl\<lparr>depth_test := False, depth_mask := False\<rparr>)) = (0, 0, 800, 600) \<and>
   \<not> depth_test (gl_run ex_scene
     (calls_of (resolve_manip ex_host 100 100 Dr_acf_matrix ex_globals))
     (ex_gl\<lparr>depth_test := False, depth_mask := False\<rparr>)) \<and>
   \<not> depth_mask (gl_run ex_scene
     (calls_of (resolve_manip ex_host 100 100 Dr_acf_matrix ex_globals))
     (ex_gl\<lparr>depth_test := False, depth_mask := False\<rparr>)) \<and>
   depth_func (gl_run ex_scene
     (calls_of (resolve_manip ex_host 100 100 Dr_acf_matrix ex_globals))
     (ex_gl\<lparr>depth_test := False, depth_mask := False\<rparr>)) = GL_LEQUAL \<and>
   clear_depth (gl_run ex_scene
     (calls_of (resolve_manip ex_host 100 100 Dr_acf_matrix ex_globals))
     (ex_gl\<lparr>depth_test := False, depth_mask := False\<rparr>)) = 1"
proof -
  let ?cs = "calls_of (resolve_manip ex_host 100 100 Dr_acf_matrix ex_globals)"
  let ?s = "ex_gl\<lparr>depth_test := False, depth_mask := False\<rparr>"
  have a: "resolve_manip ex_host 100 100 Dr_acf_matrix ex_globals =
     Inr (ex_globals\<lparr>cursor_xfer := True\<rparr>, ?cs)"
    by (simp add: ex_defs frame_defs calls_of_def)
  have v: "dr_getvi (dr_viewport ex_host) 0 4 = [0, 0, 800, 600]"
    by (simp add: ex_defs dr_getvi_def)
  have b: "fb_binding ?s = dr_fbo ex_host" by (simp add: ex_defs ex_gl_def)
  have c: "viewport ?s = (0, 0, 800, 600)" by (simp add: ex_gl_def)
  have d: "\<not> is_rev_float_z ex_host ex_globals"
    by (simp add: ex_defs is_rev_float_z_def word_sle_eq)
  have e: "\<not> depth_test ?s" "\<not> depth_mask ?s" "depth_func ?s = GL_LEQUAL" "clear_depth ?s = 1"
    "fb_binding ?s = 0"
    by (simp_all add: ex_gl_def)
  from pick_pass_leaves_host_state [OF a v [symmetric], of ex_scene ?s] b c d e
  have "fb_binding (gl_run ex_scene ?cs ?s) = 0 \<and>
        viewport (gl_run ex_scene ?cs ?s) = (0, 0, 800, 600) \<and>
        \<not> depth_test (gl_run ex_scene ?cs ?s) \<and> \<not> depth_mask (gl_run ex_scene ?cs ?s) \<and>
        depth_func (gl_run ex_scene ?cs ?s) = GL_LEQUAL \<and>
        clear_depth (gl_run ex_scene ?cs ?s) = 1"
    by simp
  with a v b c d show ?thesis by blast
qed

text \<open>
  Claim C8 as stated fails: from a context with depth test and depth mask on, the pass
  ends with both off.
\<close>

theorem pick_pass_leaves_host_state_counterexample:
  "resolve_manip ex_host 100 100 Dr_acf_matrix ex_globals =
     Inr (ex_globals\<lparr>cursor_xfer := True\<rparr>,
          calls_of (resolve_manip ex_host 100 100 Dr_acf_matrix ex_globals)) \<and>
   depth_test ex_gl \<and> depth_mask ex_gl \<and>
   \<not> depth_test (gl_run ex_scene
        (calls_of (resolve_manip ex_host 100 100 Dr_acf_matrix ex_globals)) ex_gl) \<and>
   \<not> depth_mask (gl_run ex_scene
        (calls_of (resolve_manip ex_host 100 100 Dr_acf_matrix ex_globals)) ex_gl)"
  by (simp add: ex_defs frame_defs gl_defs)

end
